theory Spec2Isabelle
  imports Complex_Main
begin

section \<open>The view planner of dense\_reconstruction (view\_planner.cpp)\<close>

text \<open>
  A shallow embedding of \<^verbatim>\<open>dense_reconstruction::ViewPlanner\<close>. The C++
  \<^verbatim>\<open>double\<close> is modelled by \<^typ>\<open>real\<close> (finite values, no NaN; without rounding,
  except in \<open>calculateReturn_rounded\<close>, where the rounding of each operation is written out),
  \<^verbatim>\<open>unsigned int\<close> indices and sizes by \<^typ>\<open>nat\<close> (no vector here comes near
  \<open>2^32\<close> entries). Every call into ROS (service calls, \<^verbatim>\<open>ros::spinOnce\<close>, the
  log, the written files) is an explicit read or write of an environment record.
\<close>

subsection \<open>Data\<close>

record Pose =
  position_x :: real
  position_y :: real
  position_z :: real
  orientation_x :: real
  orientation_y :: real
  orientation_z :: real
  orientation_w :: real

text \<open>
  Modelled from the spec: the class \<^verbatim>\<open>View\<close> (view.h is not among the sources) wraps
  a pose plus an opaque identifier.
\<close>

record View =
  pose :: Pose
  view_id :: nat

text \<open>
  Modelled from the spec: the class \<^verbatim>\<open>ViewSpace\<close> (view\_space.h is not among the
  sources) is an ordered collection of views, each tagged good or bad.
\<close>

datatype ViewTag = Good | Bad

type_synonym ViewSpace = "(View \<times> ViewTag) list"

text \<open>
  Modelled from the spec: the exception tags of
  \<^verbatim>\<open>RobotPlanningInterface::MovementCost\<close> are a closed set with the member
  \<open>NONE\<close>; the status of a data retrieval is a closed enumeration whose only success
  value is \<open>RECEIVED\<close> (robot\_planning\_interface.h is not among the sources).
\<close>

datatype MovementException = NONE | UNREACHABLE | TIMEOUT | OTHER

record MovementCost =
  cost :: real
  exception :: MovementException

datatype ReceiveInfo = RECEIVED | NOT_RECEIVED

record ReturnValueInformation =
  return_value :: real
  winning_margin :: real
  return_value_mean :: real
  return_value_stddev :: real

text \<open>
  The members of the class \<^verbatim>\<open>ViewPlanner\<close> that the planning loop reads or
  writes, named as in the source without the trailing underscore (\<^verbatim>\<open>start_\<close> is
  \<open>start\<close>).
\<close>

record ViewPlanner =
  start :: bool
  pause :: bool
  stop_and_print :: bool
  reinit :: bool
  abort_loop :: bool
  cost_weight :: real
  information_weights :: "real list"
  view_space :: ViewSpace
  current_view :: View
  planning_data_names :: "string list"
  planning_data :: "real list list"

subsection \<open>The environment\<close>

datatype LogLevel = INFO | WARN | ERROR

text \<open>
  A file written by \<^verbatim>\<open>saveDataToFile\<close>: the names of its first line and the values
  of each further line, in the order they are written (the separators are fixed, and
  how a double is printed is not modelled).
\<close>

record DataFile =
  first_line :: "string list"
  value_lines :: "real list list"

text \<open>
  The environment scripts what ROS answers. Each service script holds one entry per
  call, in call order: \<open>None\<close> when the call returns false, \<open>Some r\<close> when it returns
  true with response \<open>r\<close>. \<open>command_queue\<close> holds one entry per
  \<^verbatim>\<open>ros::spinOnce()\<close>: the message handed to \<^verbatim>\<open>commandCallback\<close> at that spin,
  if any (the subscriber's queue size is 1). \<open>uninit_movement_cost\<close> is what a
  default-constructed \<^verbatim>\<open>MovementCost\<close> holds. \<open>movement_cost_requests\<close> collects
  the start and target view of every request sent to the movement cost service,
  \<open>ros_log\<close> the log lines and \<open>files\<close> the files written.
\<close>

record Env =
  command_queue :: "string option list"
  movement_cost_srv :: "MovementCost option list"
  information_srv :: "real list option list"
  retrieve_data_srv :: "ReceiveInfo option list"
  move_to_srv :: "bool option list"
  uninit_movement_cost :: MovementCost
  movement_cost_requests :: "(View \<times> View) list"
  ros_log :: "(LogLevel \<times> string) list"
  files :: "DataFile list"

text \<open>
  Why a call does not return a state: the C++ has undefined behaviour there (an
  uninitialised or out-of-range read), or the script of the environment is exhausted
  while the code is still waiting for an answer.
\<close>

datatype fault = UndefinedBehaviour | Blocked

definition and_then :: "fault + 'a \<Rightarrow> ('a \<Rightarrow> fault + 'b) \<Rightarrow> fault + 'b" where
  "and_then r f = (case r of Inl x \<Rightarrow> Inl x | Inr a \<Rightarrow> f a)"

definition ros_log_append :: "LogLevel \<Rightarrow> string \<Rightarrow> Env \<Rightarrow> Env" where
  "ros_log_append lvl msg e = e\<lparr>ros_log := ros_log e @ [(lvl, msg)]\<rparr>"


subsection \<open>The view space\<close>

text \<open>
  Modelled from the spec: the methods of \<^verbatim>\<open>ViewSpace\<close> the planner calls.
  \<^verbatim>\<open>getView\<close> reads the view at an index (undefined out of range),
  \<^verbatim>\<open>setBad\<close> tags the view at an index bad, \<^verbatim>\<open>getGoodViewSpace\<close> lists the
  indices of the views tagged good, in order.
\<close>

definition getView :: "ViewSpace \<Rightarrow> nat \<Rightarrow> fault + View" where
  "getView vs i = (if i < length vs then Inr (fst (vs ! i)) else Inl UndefinedBehaviour)"

definition setBad :: "ViewSpace \<Rightarrow> nat \<Rightarrow> ViewSpace" where
  "setBad vs i = (if i < length vs then vs[i := (fst (vs ! i), Bad)] else vs)"

definition getGoodViewSpace :: "ViewSpace \<Rightarrow> nat list" where
  "getGoodViewSpace vs = filter (\<lambda>i. snd (vs ! i) = Good) [0..<length vs]"

definition determineAvailableViewSpace :: "ViewPlanner \<Rightarrow> nat list" where
  "determineAvailableViewSpace p = getGoodViewSpace (view_space p)"

subsection \<open>saveDataToFile, commandCallback and spinning\<close>

text \<open>
  \<^verbatim>\<open>saveDataToFile\<close> writes \<^verbatim>\<open>planning_data_names_[0]\<close> and the first value of
  every row without a size check: undefined behaviour when there is no name or a row is
  empty. The time stamp in the file's name is not modelled.
\<close>

definition saveDataToFile :: "ViewPlanner \<Rightarrow> Env \<Rightarrow> fault + Env" where
  "saveDataToFile p e =
     (if planning_data_names p = [] \<or> [] \<in> set (planning_data p) then Inl UndefinedBehaviour
      else Inr (e\<lparr>files := files e @
             [\<lparr>first_line = planning_data_names p, value_lines = planning_data p\<rparr>]\<rparr>))"

definition commandCallback :: "string \<Rightarrow> ViewPlanner \<times> Env \<Rightarrow> fault + ViewPlanner \<times> Env" where
  "commandCallback msg_data pe =
     (case pe of (p, e) \<Rightarrow>
        if msg_data = ''START''
        then Inr (p\<lparr>start := True, pause := False, stop_and_print := False\<rparr>, e)
        else if msg_data = ''PAUSE''
        then Inr (p\<lparr>start := False, pause := True, stop_and_print := False\<rparr>, e)
        else if msg_data = ''STOP_AND_PRINT''
        then Inr (p\<lparr>start := False, pause := False, stop_and_print := True\<rparr>, e)
        else if msg_data = ''REINIT''
        then Inr (p\<lparr>reinit := True\<rparr>, e)
        else if msg_data = ''ABORT_LOOP''
        then Inr (p\<lparr>abort_loop := True\<rparr>, e)
        else if msg_data = ''PRINT_DATA''
        then and_then (saveDataToFile p e) (\<lambda>e'. Inr (p, e'))
        else Inr (p, e))"

text \<open>
  \<^verbatim>\<open>ros::spinOnce()\<close>: the pending message, if any, is handed to the callback. With
  the script exhausted nothing more is known of the environment.
\<close>

definition spinOnce :: "ViewPlanner \<times> Env \<Rightarrow> fault + ViewPlanner \<times> Env" where
  "spinOnce pe =
     (case pe of (p, e) \<Rightarrow>
        (case command_queue e of
           [] \<Rightarrow> Inl Blocked
         | None # q \<Rightarrow> Inr (p, e\<lparr>command_queue := q\<rparr>)
         | Some m # q \<Rightarrow> commandCallback m (p, e\<lparr>command_queue := q\<rparr>)))"

subsection \<open>calculateReturn\<close>

text \<open>
  The loop \<^verbatim>\<open>for( i=0; i<_informations.size(); ++i ) view_return +=
  information_weights_[i]*_informations[i];\<close>
\<close>

function calculateReturn_loop :: "real list \<Rightarrow> real list \<Rightarrow> nat \<Rightarrow> real \<Rightarrow> real" where
  "calculateReturn_loop weights informations i view_return =
     (if i < length informations
      then calculateReturn_loop weights informations (Suc i)
             (view_return + weights ! i * informations ! i)
      else view_return)"
  by pat_completeness auto
termination
  by (relation "measure (\<lambda>(ws, infos, i, r). length infos - i)") auto

declare calculateReturn_loop.simps [simp del]

definition msg_not_enough_weights :: string where
  "msg_not_enough_weights = ''ViewPlanner::calculateReturn::Not enough information weights available''"

definition calculateReturn :: "ViewPlanner \<Rightarrow> real \<Rightarrow> real list \<Rightarrow> Env \<Rightarrow> real \<times> Env" where
  "calculateReturn p c informations e =
     (let view_return = -1 * cost_weight p * c in
      if length informations > length (information_weights p)
      then (view_return, ros_log_append ERROR msg_not_enough_weights e)
      else (calculateReturn_loop (information_weights p) informations 0 view_return, e))"

text \<open>
  The same function with the rounding of \<^verbatim>\<open>double\<close> arithmetic written out: each
  multiplication and each addition yields \<open>rnd\<close> of its exact result, \<open>rnd\<close> being the
  rounding of the machine. \<^verbatim>\<open>-1*cost_weight_*_cost\<close> is two multiplications, from the
  left; \<^verbatim>\<open>view_return += information_weights_[i]*_informations[i]\<close> is one
  multiplication and one addition. With the identity for \<open>rnd\<close> this is
  \<open>calculateReturn\<close>. Values stay finite here as everywhere: an operation that
  overflows to an infinity is outside the model.
\<close>

function calculateReturn_loop_rounded ::
  "(real \<Rightarrow> real) \<Rightarrow> real list \<Rightarrow> real list \<Rightarrow> nat \<Rightarrow> real \<Rightarrow> real" where
  "calculateReturn_loop_rounded rnd weights informations i view_return =
     (if i < length informations
      then calculateReturn_loop_rounded rnd weights informations (Suc i)
             (rnd (view_return + rnd (weights ! i * informations ! i)))
      else view_return)"
  by pat_completeness auto
termination
  by (relation "measure (\<lambda>(rnd, ws, infos, i, r). length infos - i)") auto

declare calculateReturn_loop_rounded.simps [simp del]

definition calculateReturn_rounded ::
  "(real \<Rightarrow> real) \<Rightarrow> ViewPlanner \<Rightarrow> real \<Rightarrow> real list \<Rightarrow> Env \<Rightarrow> real \<times> Env" where
  "calculateReturn_rounded rnd p c informations e =
     (let view_return = rnd (rnd (-1 * cost_weight p) * c) in
      if length informations > length (information_weights p)
      then (view_return, ros_log_append ERROR msg_not_enough_weights e)
      else (calculateReturn_loop_rounded rnd (information_weights p) informations 0 view_return, e))"



text \<open>
  The reading of the return computation that credits the leading entries of an
  information vector longer than the weight vector and drops only the excess, with a
  warning. It is not the code; the code is compared with it.
\<close>

definition calculateReturn_dropping_excess :: "ViewPlanner \<Rightarrow> real \<Rightarrow> real list \<Rightarrow> Env \<Rightarrow> real \<times> Env" where
  "calculateReturn_dropping_excess p c informations e =
     (let k = min (length informations) (length (information_weights p));
          r = - (cost_weight p * c) + (\<Sum>i<k. information_weights p ! i * informations ! i)
      in if length informations > length (information_weights p)
         then (r, ros_log_append WARN msg_not_enough_weights e)
         else (r, e))"

subsection \<open>The scan for the next best view in run()\<close>

text \<open>
  The locals of the scan. \<open>nbv_index\<close> is declared without an initialiser:
  \<open>None\<close> until the scan assigns it.
\<close>

record NbvScan =
  nbv_index :: "nat option"
  highest_return :: real
  second_highest :: real

definition nbv_scan_init :: NbvScan where
  "nbv_scan_init = \<lparr>nbv_index = None, highest_return = 0, second_highest = 0\<rparr>"

definition nbv_scan_step :: "real list \<Rightarrow> real list \<Rightarrow> nat \<Rightarrow> NbvScan \<Rightarrow> NbvScan" where
  "nbv_scan_step costs view_returns i st =
     (if costs ! i = -1 then st
      else if view_returns ! i > highest_return st
      then \<lparr>nbv_index = Some i, highest_return = view_returns ! i,
             second_highest = highest_return st\<rparr>
      else st)"

text \<open>
  \<^verbatim>\<open>for( i=0; i<views_to_consider.size(); ++i )\<close>; the vectors \<open>costs\<close> and
  \<open>view_returns\<close> are both constructed with \<open>n = views_to_consider.size()\<close> entries.
\<close>

function nbv_scan_from :: "real list \<Rightarrow> real list \<Rightarrow> nat \<Rightarrow> nat \<Rightarrow> NbvScan \<Rightarrow> NbvScan" where
  "nbv_scan_from costs view_returns n i st =
     (if i < n
      then nbv_scan_from costs view_returns n (Suc i) (nbv_scan_step costs view_returns i st)
      else st)"
  by pat_completeness auto
termination
  by (relation "measure (\<lambda>(costs, view_returns, n, i, st). n - i)") auto

declare nbv_scan_from.simps [simp del]

definition nbv_scan :: "nat list \<Rightarrow> real list \<Rightarrow> real list \<Rightarrow> NbvScan" where
  "nbv_scan views_to_consider costs view_returns =
     nbv_scan_from costs view_returns (length views_to_consider) 0 nbv_scan_init"

subsection \<open>Waiting loops\<close>

text \<open>
  The waiting loops end when the script they read from is used up; the facts below are
  what their termination proofs need.
\<close>

lemma and_then_cong [fundef_cong]:
  "r = r' \<Longrightarrow> (\<And>a. r' = Inr a \<Longrightarrow> f a = f' a) \<Longrightarrow> and_then r f = and_then r' f'"
  by (auto simp: and_then_def split: sum.splits)

lemma and_then_Inr_iff:
  "and_then r f = Inr b \<longleftrightarrow> (\<exists>a. r = Inr a \<and> f a = Inr b)"
  by (auto simp: and_then_def split: sum.splits)

lemma and_then_Inl [simp]: "and_then (Inl x) f = Inl x"
  by (simp add: and_then_def)

lemma and_then_Inr [simp]: "and_then (Inr a) f = f a"
  by (simp add: and_then_def)

lemma and_then_weak_cong [cong]: "r = r' \<Longrightarrow> and_then r f = and_then r' f"
  by simp

lemma commandCallback_scripts:
  "commandCallback m (p, e) = Inr (p', e') \<Longrightarrow>
   command_queue e' = command_queue e \<and> movement_cost_srv e' = movement_cost_srv e \<and>
   information_srv e' = information_srv e \<and> retrieve_data_srv e' = retrieve_data_srv e \<and>
   move_to_srv e' = move_to_srv e \<and> uninit_movement_cost e' = uninit_movement_cost e \<and>
   movement_cost_requests e' = movement_cost_requests e \<and> ros_log e' = ros_log e"
  by (auto simp: commandCallback_def saveDataToFile_def and_then_def split: if_splits)

lemma spinOnce_scripts:
  "spinOnce (p, e) = Inr (p', e') \<Longrightarrow>
   command_queue e = hd (command_queue e) # command_queue e' \<and> command_queue e \<noteq> [] \<and>
   movement_cost_srv e' = movement_cost_srv e \<and>
   information_srv e' = information_srv e \<and> retrieve_data_srv e' = retrieve_data_srv e \<and>
   move_to_srv e' = move_to_srv e \<and> uninit_movement_cost e' = uninit_movement_cost e \<and>
   movement_cost_requests e' = movement_cost_requests e \<and> ros_log e' = ros_log e"
  by (auto simp: spinOnce_def split: list.splits option.splits dest!: commandCallback_scripts)

text \<open>
  \<^verbatim>\<open>pauseIfRequested\<close>: \<^verbatim>\<open>if( pause_ ) { ROS_INFO("Paused."); do { sleep; ros::spinOnce(); }
  while( pause_ ); }\<close>. A log line is modelled by its level and its text (for a stream,
  the leading literal).
\<close>

definition msg_paused :: string where
  "msg_paused = ''Paused.''"

function pauseIfRequested_loop :: "ViewPlanner \<times> Env \<Rightarrow> fault + ViewPlanner \<times> Env" where
  "pauseIfRequested_loop pe =
     and_then (spinOnce pe) (\<lambda>pe'. if pause (fst pe') then pauseIfRequested_loop pe' else Inr pe')"
  by pat_completeness auto
termination
proof (relation "measure (\<lambda>pe. length (command_queue (snd pe)))")
  show "wf (measure (\<lambda>pe. length (command_queue (snd pe))))" by simp
next
  fix pe pe' :: "ViewPlanner \<times> Env"
  assume "spinOnce pe = Inr pe'"
  then have "command_queue (snd pe) = hd (command_queue (snd pe)) # command_queue (snd pe')"
    using spinOnce_scripts [of "fst pe" "snd pe" "fst pe'" "snd pe'"] by simp
  then have "length (command_queue (snd pe')) < length (command_queue (snd pe))"
    by (metis length_Cons lessI)
  then show "(pe', pe) \<in> measure (\<lambda>pe. length (command_queue (snd pe)))" by simp
qed

declare pauseIfRequested_loop.simps [simp del]

definition pauseIfRequested :: "ViewPlanner \<times> Env \<Rightarrow> fault + ViewPlanner \<times> Env" where
  "pauseIfRequested pe =
     (case pe of (p, e) \<Rightarrow>
        if pause p then pauseIfRequested_loop (p, ros_log_append INFO msg_paused e)
        else Inr (p, e))"

text \<open>
  \<^verbatim>\<open>retrieveData\<close> writes its output only when the call succeeded. The local
  \<^verbatim>\<open>receive_info\<close> of \<^verbatim>\<open>retrieveDataAndWait\<close> is declared without an initialiser
  (\<open>None\<close>); the loop condition reads it only after a successful call, by the
  short-circuit of \<^verbatim>\<open>||\<close>.
  \<^verbatim>\<open>do { ok = retrieveData(receive_info); if( !ok || receive_info!=RECEIVED ) { ROS_INFO(...);
  sleep; ros::spinOnce(); } } while( (!ok || receive_info!=RECEIVED) && !abort_loop_ );\<close>
\<close>

definition retrieveData :: "ReceiveInfo option \<Rightarrow> Env \<Rightarrow> fault + bool \<times> ReceiveInfo option \<times> Env" where
  "retrieveData output e =
     (case retrieve_data_srv e of
        [] \<Rightarrow> Inl Blocked
      | None # rest \<Rightarrow> Inr (False, output, e\<lparr>retrieve_data_srv := rest\<rparr>)
      | Some receive_info # rest \<Rightarrow> Inr (True, Some receive_info, e\<lparr>retrieve_data_srv := rest\<rparr>))"

definition msg_retrieve_retry :: string where
  "msg_retrieve_retry = ''retrieveDataAndWait: data retrieval service did not succeed. Trying again in a few...''"

function retrieveDataAndWait_loop ::
  "ReceiveInfo option \<Rightarrow> ViewPlanner \<times> Env \<Rightarrow> fault + ViewPlanner \<times> Env" where
  "retrieveDataAndWait_loop receive_info pe =
     and_then (retrieveData receive_info (snd pe)) (\<lambda>(receive_service_succeeded, receive_info', e1).
       if \<not> receive_service_succeeded \<or> receive_info' \<noteq> Some RECEIVED
       then and_then (spinOnce (fst pe, ros_log_append INFO msg_retrieve_retry e1)) (\<lambda>pe2.
              if \<not> abort_loop (fst pe2) then retrieveDataAndWait_loop receive_info' pe2
              else Inr pe2)
       else Inr (fst pe, e1))"
  by pat_completeness auto
termination
proof (relation "measure (\<lambda>(ri, pe). length (retrieve_data_srv (snd pe)))")
  show "wf (measure (\<lambda>(ri, pe). length (retrieve_data_srv (snd pe))))" by simp
next
  fix receive_info :: "ReceiveInfo option" and pe pe2 :: "ViewPlanner \<times> Env"
    and x ok y ri' e1
  assume a: "retrieveData receive_info (snd pe) = Inr x" "(ok, y) = x" "(ri', e1) = y"
    and s: "spinOnce (fst pe, ros_log_append INFO msg_retrieve_retry e1) = Inr pe2"
  from a have "length (retrieve_data_srv e1) < length (retrieve_data_srv (snd pe))"
    by (auto simp: retrieveData_def split: list.splits option.splits)
  moreover have "retrieve_data_srv (snd pe2) = retrieve_data_srv e1"
    using spinOnce_scripts [of "fst pe" "ros_log_append INFO msg_retrieve_retry e1" "fst pe2" "snd pe2"] s
    by (simp add: ros_log_append_def)
  ultimately show "((ri', pe2), (receive_info, pe)) \<in> measure (\<lambda>(ri, pe). length (retrieve_data_srv (snd pe)))"
    by simp
qed


declare retrieveDataAndWait_loop.simps [simp del]

text \<open>
  After the loop: \<^verbatim>\<open>if( abort_loop_ ) { ROS_INFO(...); abort_loop_ = false; } else {
  ROS_INFO(...); }\<close>
\<close>

definition msg_retrieve_abort :: string where
  "msg_retrieve_abort = ''retrieveDataAndWait received loop abortion request and stops trying to get the data retrieval service to succeed. The service might have failed.''"

definition msg_retrieve_success :: string where
  "msg_retrieve_success = ''Data retrieval service reported successful data retrieval.''"

definition retrieveDataAndWait :: "ViewPlanner \<times> Env \<Rightarrow> fault + ViewPlanner \<times> Env" where
  "retrieveDataAndWait pe =
     and_then (retrieveDataAndWait_loop None pe) (\<lambda>(p, e).
       if abort_loop p
       then Inr (p\<lparr>abort_loop := False\<rparr>, ros_log_append INFO msg_retrieve_abort e)
       else Inr (p, ros_log_append INFO msg_retrieve_success e))"

text \<open>\<^verbatim>\<open>moveToAndWait\<close> has the same shape, over \<^verbatim>\<open>moveTo\<close> and \<^verbatim>\<open>successfully_moved\<close>.\<close>

text \<open>
  \<^verbatim>\<open>moveTo\<close> sends its request through \<^verbatim>\<open>data_retriever_\<close>; \<open>move_to_srv\<close> scripts
  what that call answers.
\<close>

definition moveTo :: "bool option \<Rightarrow> View \<Rightarrow> Env \<Rightarrow> fault + bool \<times> bool option \<times> Env" where
  "moveTo output target_view e =
     (case move_to_srv e of
        [] \<Rightarrow> Inl Blocked
      | None # rest \<Rightarrow> Inr (False, output, e\<lparr>move_to_srv := rest\<rparr>)
      | Some success # rest \<Rightarrow> Inr (True, Some success, e\<lparr>move_to_srv := rest\<rparr>))"

definition msg_move_retry :: string where
  "msg_move_retry = ''moveToAndWait: Either the service failed or the robot movement. Trying again in a few...''"

definition msg_move_abort :: string where
  "msg_move_abort = ''moveToAndWait received loop abortion request and stops trying to get the robot movement service to succeed. The service might have failed.''"

definition msg_move_success :: string where
  "msg_move_success = ''Robot movement service reported successful movement.''"

function moveToAndWait_loop ::
  "View \<Rightarrow> bool option \<Rightarrow> ViewPlanner \<times> Env \<Rightarrow> fault + ViewPlanner \<times> Env" where
  "moveToAndWait_loop target_view successfully_moved pe =
     and_then (moveTo successfully_moved target_view (snd pe)) (\<lambda>(service_succeeded, successfully_moved', e1).
       if \<not> service_succeeded \<or> successfully_moved' \<noteq> Some True
       then and_then (spinOnce (fst pe, ros_log_append INFO msg_move_retry e1)) (\<lambda>pe2.
              if \<not> abort_loop (fst pe2) then moveToAndWait_loop target_view successfully_moved' pe2
              else Inr pe2)
       else Inr (fst pe, e1))"
  by pat_completeness auto
termination
proof (relation "measure (\<lambda>(v, m, pe). length (move_to_srv (snd pe)))")
  show "wf (measure (\<lambda>(v, m, pe). length (move_to_srv (snd pe))))" by simp
next
  fix target_view :: View and successfully_moved :: "bool option" and pe pe2 :: "ViewPlanner \<times> Env"
    and x ok y m' e1
  assume a: "moveTo successfully_moved target_view (snd pe) = Inr x" "(ok, y) = x" "(m', e1) = y"
    and s: "spinOnce (fst pe, ros_log_append INFO msg_move_retry e1) = Inr pe2"
  from a have "length (move_to_srv e1) < length (move_to_srv (snd pe))"
    by (auto simp: moveTo_def split: list.splits option.splits)
  moreover have "move_to_srv (snd pe2) = move_to_srv e1"
    using spinOnce_scripts [of "fst pe" "ros_log_append INFO msg_move_retry e1" "fst pe2" "snd pe2"] s
    by (simp add: ros_log_append_def)
  ultimately show "((target_view, m', pe2), (target_view, successfully_moved, pe))
      \<in> measure (\<lambda>(v, m, pe). length (move_to_srv (snd pe)))"
    by simp
qed

declare moveToAndWait_loop.simps [simp del]

definition moveToAndWait :: "View \<Rightarrow> ViewPlanner \<times> Env \<Rightarrow> fault + ViewPlanner \<times> Env" where
  "moveToAndWait target_view pe =
     and_then (moveToAndWait_loop target_view None pe) (\<lambda>(p, e).
       if abort_loop p
       then Inr (p\<lparr>abort_loop := False\<rparr>, ros_log_append INFO msg_move_abort e)
       else Inr (p, ros_log_append INFO msg_move_success e))"

subsection \<open>Movement costs\<close>

text \<open>
  \<^verbatim>\<open>movementCost\<close> sends one request and writes its output only when the call
  succeeded. The loop of \<^verbatim>\<open>run()\<close> default-constructs \<^verbatim>\<open>cost_description\<close> in
  every pass, calls \<^verbatim>\<open>movementCost\<close> without reading what it returns, and tests
  \<^verbatim>\<open>cost_description.exception\<close>:
  \<^verbatim>\<open>if( cost_description.exception!=NONE ) { view_space_.setBad( views_to_consider[i] );
  cost[i] = -1; } else { cost[i] = cost_description.cost; }\<close>
\<close>

definition movementCost ::
  "MovementCost \<Rightarrow> View \<Rightarrow> View \<Rightarrow> Env \<Rightarrow> fault + bool \<times> MovementCost \<times> Env" where
  "movementCost output start_view target_view e =
     (case movement_cost_srv e of
        [] \<Rightarrow> Inl Blocked
      | r # rest \<Rightarrow>
          (let e' = e\<lparr>movement_cost_srv := rest,
                      movement_cost_requests := movement_cost_requests e @ [(start_view, target_view)]\<rparr>
           in case r of
                None \<Rightarrow> Inr (False, output, e')
              | Some movement_cost \<Rightarrow> Inr (True, movement_cost, e')))"

function cost_loop ::
  "nat list \<Rightarrow> nat \<Rightarrow> real list \<Rightarrow> ViewPlanner \<times> Env \<Rightarrow> fault + real list \<times> ViewPlanner \<times> Env" where
  "cost_loop views_to_consider i costs pe =
     (if i < length costs
      then and_then (getView (view_space (fst pe)) (views_to_consider ! i)) (\<lambda>target.
           and_then (movementCost (uninit_movement_cost (snd pe)) (current_view (fst pe)) target (snd pe))
             (\<lambda>(response, cost_description, e1).
                if exception cost_description \<noteq> NONE
                then cost_loop views_to_consider (Suc i) (costs[i := -1])
                       ((fst pe)\<lparr>view_space := setBad (view_space (fst pe)) (views_to_consider ! i)\<rparr>, e1)
                else cost_loop views_to_consider (Suc i) (costs[i := cost cost_description]) (fst pe, e1)))
      else Inr (costs, pe))"
  by pat_completeness auto
termination
  by (relation "measure (\<lambda>(vs, i, costs, pe). length costs - i)") auto

declare cost_loop.simps [simp del]

subsection \<open>Expected information\<close>

text \<open>
  \<^verbatim>\<open>getViewInformation\<close> sends its request through \<^verbatim>\<open>current_view_retriever_\<close>;
  \<open>information_srv\<close> scripts what that call answers.
\<close>

definition getViewInformation :: "real list \<Rightarrow> Pose list \<Rightarrow> Env \<Rightarrow> fault + bool \<times> real list \<times> Env" where
  "getViewInformation output poses e =
     (case information_srv e of
        [] \<Rightarrow> Inl Blocked
      | None # rest \<Rightarrow> Inr (False, output, e\<lparr>information_srv := rest\<rparr>)
      | Some vals # rest \<Rightarrow> Inr (True, vals, e\<lparr>information_srv := rest\<rparr>))"

function information_loop ::
  "nat list \<Rightarrow> real list \<Rightarrow> nat \<Rightarrow> real list list \<Rightarrow> ViewPlanner \<times> Env \<Rightarrow> fault + real list list \<times> Env" where
  "information_loop views_to_consider costs i information pe =
     (if i < length information
      then (if costs ! i = -1
            then information_loop views_to_consider costs (Suc i) information pe
            else and_then (getView (view_space (fst pe)) (views_to_consider ! i)) (\<lambda>target_view.
                 and_then (getViewInformation (information ! i) [pose target_view] (snd pe))
                   (\<lambda>(response, output, e1).
                      information_loop views_to_consider costs (Suc i) (information[i := output]) (fst pe, e1))))
      else Inr (information, snd pe))"
  by pat_completeness auto
termination
  by (relation "measure (\<lambda>(vs, costs, i, information, pe). length information - i)") auto

declare information_loop.simps [simp del]

subsection \<open>Returns\<close>

text \<open>
  \<^verbatim>\<open>for( i=0; i<view_returns.size(); ++i ) { if( cost[i]==-1 ) continue; view_returns[i] =
  calculateReturn( cost[i], information[i] ); }\<close>
\<close>

function view_returns_loop ::
  "ViewPlanner \<Rightarrow> real list \<Rightarrow> real list list \<Rightarrow> nat \<Rightarrow> real list \<Rightarrow> Env \<Rightarrow> real list \<times> Env" where
  "view_returns_loop p costs information i view_returns e =
     (if i < length view_returns
      then (if costs ! i = -1
            then view_returns_loop p costs information (Suc i) view_returns e
            else (case calculateReturn p (costs ! i) (information ! i) e of
                    (r, e') \<Rightarrow> view_returns_loop p costs information (Suc i) (view_returns[i := r]) e'))
      else (view_returns, e))"
  by pat_completeness auto
termination
  by (relation "measure (\<lambda>(p, costs, information, i, view_returns, e). length view_returns - i)") auto

declare view_returns_loop.simps [simp del]


subsection \<open>Recording a row\<close>

text \<open>
  \<^verbatim>\<open>getIndexForAdditionalField\<close>: the first index of the name among the column names;
  a name not found is appended and its index returned.
\<close>

function getIndexForAdditionalField_from :: "string \<Rightarrow> string list \<Rightarrow> nat \<Rightarrow> nat option" where
  "getIndexForAdditionalField_from name names i =
     (if i < length names
      then (if names ! i = name then Some i
            else getIndexForAdditionalField_from name names (Suc i))
      else None)"
  by pat_completeness auto
termination
  by (relation "measure (\<lambda>(name, names, i). length names - i)") auto

declare getIndexForAdditionalField_from.simps [simp del]

definition getIndexForAdditionalField :: "string \<Rightarrow> ViewPlanner \<Rightarrow> nat \<times> ViewPlanner" where
  "getIndexForAdditionalField name p =
     (case getIndexForAdditionalField_from name (planning_data_names p) 0 of
        Some i \<Rightarrow> (i, p)
      | None \<Rightarrow>
          (let p' = p\<lparr>planning_data_names := planning_data_names p @ [name]\<rparr>
           in (length (planning_data_names p') - 1, p')))"

text \<open>\<^verbatim>\<open>nbv_data.resize( index+1 )\<close> appends zeros.\<close>

definition resize :: "real list \<Rightarrow> nat \<Rightarrow> real list" where
  "resize v n = (if n \<le> length v then take n v else v @ replicate (n - length v) 0)"

text \<open>
  \<^verbatim>\<open>saveNBVData\<close>: the row starts with the pose of \<^verbatim>\<open>view_space_.getView(_nbv_index)\<close>,
  the four values of the return information, the cost and the information values; the
  extra fields are written when both pointers are given (\<open>Some\<close>) and the vectors have
  the same size; the row is appended to \<^verbatim>\<open>planning_data_\<close>.
\<close>

function saveNBVData_fields ::
  "string list \<Rightarrow> real list \<Rightarrow> nat \<Rightarrow> real list \<Rightarrow> ViewPlanner \<Rightarrow> real list \<times> ViewPlanner" where
  "saveNBVData_fields additional_field_names additional_field_values i nbv_data p =
     (if i < length additional_field_names
      then (case getIndexForAdditionalField (additional_field_names ! i) p of
              (index, p') \<Rightarrow>
                (let nbv_data' = (if length nbv_data \<le> index then resize nbv_data (index + 1) else nbv_data)
                 in saveNBVData_fields additional_field_names additional_field_values (Suc i)
                      (nbv_data'[index := additional_field_values ! i]) p'))
      else (nbv_data, p))"
  by pat_completeness auto
termination
  by (relation "measure (\<lambda>(names, vals, i, nbv_data, p). length names - i)") auto

declare saveNBVData_fields.simps [simp del]

definition saveNBVData ::
  "nat \<Rightarrow> ReturnValueInformation \<Rightarrow> real \<Rightarrow> real list \<Rightarrow> string list option \<Rightarrow> real list option \<Rightarrow>
   ViewPlanner \<Rightarrow> fault + ViewPlanner" where
  "saveNBVData nbv_idx return_value_information c information_gain
       additional_field_names additional_field_values p =
     and_then (getView (view_space p) nbv_idx) (\<lambda>nbv.
       let nbv_data =
             [position_x (pose nbv), position_y (pose nbv), position_z (pose nbv),
              orientation_x (pose nbv), orientation_y (pose nbv), orientation_z (pose nbv),
              orientation_w (pose nbv),
              return_value return_value_information, winning_margin return_value_information,
              return_value_mean return_value_information, return_value_stddev return_value_information,
              c] @ information_gain;
           (nbv_data', p') =
             (case (additional_field_names, additional_field_values) of
                (Some names, Some vals) \<Rightarrow>
                  if length names = length vals then saveNBVData_fields names vals 0 nbv_data p
                  else (nbv_data, p)
              | _ \<Rightarrow> (nbv_data, p))
       in Inr (p'\<lparr>planning_data := planning_data p' @ [nbv_data']\<rparr>))"

subsection \<open>The planning loop of run()\<close>

text \<open>
  \<^verbatim>\<open>st_is::StdError\<close> (utils/math.h is not among the sources) is a parameter: a
  function from the vector it is constructed on to its members \<open>mean\<close> and \<open>variance\<close>.
\<close>

type_synonym StdError = "real list \<Rightarrow> real \<times> real"

text \<open>The \<^verbatim>\<open>return_info\<close> that \<^verbatim>\<open>run()\<close> builds after the scan.\<close>

definition make_return_info :: "StdError \<Rightarrow> NbvScan \<Rightarrow> real list \<Rightarrow> ReturnValueInformation" where
  "make_return_info std_error scan view_returns =
     \<lparr>return_value = highest_return scan,
      winning_margin = highest_return scan - second_highest scan,
      return_value_mean = fst (std_error view_returns),
      return_value_stddev = sqrt (snd (std_error view_returns))\<rparr>"

definition terminationCriteriaFulfilled :: "real \<Rightarrow> real \<Rightarrow> real list \<Rightarrow> bool" where
  "terminationCriteriaFulfilled return_val c information_gain = False"

definition msg_retrieve_costs :: string where
  "msg_retrieve_costs = ''Retrieve movement costs...''"

definition msg_retrieve_information :: string where
  "msg_retrieve_information = ''Retrieve information gain...''"

definition msg_calculating :: string where
  "msg_calculating = ''Calculating next best view...''"

definition msg_terminated :: string where
  "msg_terminated = ''The termination critera was fulfilled and the reconstruction is thus considered to have succeeded. The view planner will shut down.''"

definition msg_saving :: string where
  "msg_saving = ''Saving data to file.''"

text \<open>
  The candidates of a round: \<^verbatim>\<open>pauseIfRequested(); determineAvailableViewSpace(
  views_to_consider );\<close>
\<close>

definition round_candidates :: "ViewPlanner \<times> Env \<Rightarrow> fault + nat list \<times> ViewPlanner \<times> Env" where
  "round_candidates pe =
     and_then (pauseIfRequested pe) (\<lambda>(p, e). Inr (determineAvailableViewSpace p, p, e))"

text \<open>
  The first part of a pass through the body of the do-while loop, up to the computed
  returns: the candidates, their costs, their information vectors and their returns.
  \<^verbatim>\<open>cost\<close> and \<^verbatim>\<open>view_returns\<close> are constructed with one zero per candidate,
  \<^verbatim>\<open>information\<close> with one empty vector per candidate.
\<close>

definition round_evaluate ::
  "ViewPlanner \<times> Env \<Rightarrow> fault + nat list \<times> real list \<times> real list list \<times> real list \<times> ViewPlanner \<times> Env" where
  "round_evaluate pe =
     and_then (round_candidates pe) (\<lambda>(views_to_consider, p, e).
     and_then (cost_loop views_to_consider 0 (replicate (length views_to_consider) 0)
                 (p, ros_log_append INFO msg_retrieve_costs e)) (\<lambda>(costs, pe1).
     and_then (pauseIfRequested pe1) (\<lambda>(p2, e2).
     and_then (information_loop views_to_consider costs 0 (replicate (length views_to_consider) [])
                 (p2, ros_log_append INFO msg_retrieve_information e2)) (\<lambda>(information, e3).
     and_then (pauseIfRequested (p2, e3)) (\<lambda>(p4, e4).
       case view_returns_loop p4 costs information 0 (replicate (length views_to_consider) 0)
              (ros_log_append INFO msg_calculating e4) of
         (view_returns, e5) \<Rightarrow> Inr (views_to_consider, costs, information, view_returns, p4, e5))))))"

text \<open>
  One pass through the body of the do-while loop: the part above, then the scan, the
  recorded row, the move and the new data. The result says whether the body left the
  loop by \<^verbatim>\<open>break\<close>. Reading \<^verbatim>\<open>nbv_index\<close> when the scan never assigned it is
  undefined behaviour.
\<close>

definition loop_body :: "StdError \<Rightarrow> ViewPlanner \<times> Env \<Rightarrow> fault + bool \<times> ViewPlanner \<times> Env" where
  "loop_body std_error pe =
     and_then (round_evaluate pe) (\<lambda>(views_to_consider, costs, information, view_returns, p4, e5).
       let scan = nbv_scan views_to_consider costs view_returns;
           return_info = make_return_info std_error scan view_returns
       in case nbv_index scan of
            None \<Rightarrow> Inl UndefinedBehaviour
          | Some nbv \<Rightarrow>
              and_then (saveNBVData nbv return_info (costs ! nbv) (information ! nbv) None None p4)
                (\<lambda>p5.
                   if \<not> terminationCriteriaFulfilled (highest_return scan) (costs ! nbv) (information ! nbv)
                   then and_then (getView (view_space p5) nbv) (\<lambda>nbv_view.
                        and_then (moveToAndWait nbv_view (p5, e5)) (\<lambda>pe6.
                        and_then (retrieveDataAndWait pe6) (\<lambda>pe7.
                        and_then (spinOnce pe7) (\<lambda>pe8. Inr (False, pe8)))))
                   else Inr (True, p5, ros_log_append INFO msg_terminated e5)))"

text \<open>
  \<^verbatim>\<open>do { ... } while( !stop_and_print_ );\<close> and the final \<^verbatim>\<open>saveDataToFile()\<close>,
  for at most \<open>k\<close> passes through the body.
\<close>

fun run_loop :: "StdError \<Rightarrow> nat \<Rightarrow> ViewPlanner \<times> Env \<Rightarrow> fault + ViewPlanner \<times> Env" where
  "run_loop std_error 0 pe = Inl Blocked"
| "run_loop std_error (Suc k) pe =
     and_then (loop_body std_error pe) (\<lambda>(left_by_break, pe').
       if \<not> left_by_break \<and> \<not> stop_and_print (fst pe') then run_loop std_error k pe'
       else and_then (saveDataToFile (fst pe') (ros_log_append INFO msg_saving (snd pe')))
              (\<lambda>e'. Inr (fst pe', e')))"

text \<open>
  \<open>later_round std_error pe pe'\<close>: the loop that has just finished a pass through its
  body in state \<open>pe\<close> is, in state \<open>pe'\<close>, at the head of a later pass.
\<close>

inductive later_round :: "StdError \<Rightarrow> ViewPlanner \<times> Env \<Rightarrow> ViewPlanner \<times> Env \<Rightarrow> bool"
  for std_error :: StdError where
  next_round: "\<not> stop_and_print (fst pe) \<Longrightarrow> later_round std_error pe pe"
| further_round:
    "later_round std_error pe pe1 \<Longrightarrow> loop_body std_error pe1 = Inr (False, pe2) \<Longrightarrow>
     \<not> stop_and_print (fst pe2) \<Longrightarrow> later_round std_error pe pe2"

subsection \<open>The constructor\<close>

definition metrics_to_use :: "string list" where
  "metrics_to_use =
     [''NrOfUnknownVoxels'', ''AverageUncertainty'', ''AverageEndPointUncertainty'',
      ''UnknownObjectSideFrontier'', ''UnknownObjectVolumeFrontier'', ''ClassicFrontier'',
      ''EndNodeOccupancySum'', ''TotalOccupancyCertainty'', ''TotalNrOfOccupieds'']"

text \<open>
  The state the constructor leaves, given what the parameter server holds for the cost
  weight and for the weight of each metric, and the default-constructed view.
\<close>

definition ViewPlanner_new :: "real option \<Rightarrow> (string \<Rightarrow> real option) \<Rightarrow> View \<Rightarrow> ViewPlanner" where
  "ViewPlanner_new cost_weight_param weight_param default_view =
     \<lparr>start = False, pause = False, stop_and_print = False, reinit = False, abort_loop = False,
      cost_weight = (case cost_weight_param of None \<Rightarrow> 1 | Some w \<Rightarrow> w),
      information_weights = map (\<lambda>metric_name. case weight_param metric_name of None \<Rightarrow> 0 | Some w \<Rightarrow> w)
                              metrics_to_use,
      view_space = [],
      current_view = default_view,
      planning_data_names =
        [''pos_x'', ''pos_y'', ''pos_z'', ''rot_x'', ''rot_y'', ''rot_z'', ''rot_w'',
         ''return_value'', ''winning_margin'', ''return_value_mean'', ''return_value_stddev'',
         ''cost'', ''NrOfUnknownVoxels'', ''AverageUncertainty'', ''AverageEndPointUncertainty'',
         ''UnknownObjectSideFrontier'', ''UnknownObjectVolumeFrontier'', ''ClassicFrontier'',
         ''EndNodeOccupancySum'', ''TotalOccupancyCertainty'', ''TotalNrOfOccupieds''],
      planning_data = []\<rparr>"

subsection \<open>Notions used in the statements\<close>

text \<open>
  The invariant of the scan after \<open>i\<close> candidates: no viable return seen exceeds
  \<open>highest_return\<close>; while no index is assigned both locals are 0; an assigned index is
  the first viable one whose return is \<open>highest_return\<close>, that return is positive, and
  \<open>second_highest\<close> is 0 or the return of an earlier viable candidate, and no
  earlier viable return exceeds it.
\<close>

definition nbv_scan_inv :: "real list \<Rightarrow> real list \<Rightarrow> nat \<Rightarrow> NbvScan \<Rightarrow> bool" where
  "nbv_scan_inv costs view_returns i st \<longleftrightarrow>
     (\<forall>j<i. costs ! j \<noteq> -1 \<longrightarrow> view_returns ! j \<le> highest_return st) \<and>
     (case nbv_index st of
        None \<Rightarrow> highest_return st = 0 \<and> second_highest st = 0
      | Some k \<Rightarrow>
          k < i \<and> costs ! k \<noteq> -1 \<and> view_returns ! k = highest_return st \<and>
          0 < highest_return st \<and>
          (\<forall>j<k. costs ! j \<noteq> -1 \<longrightarrow> view_returns ! j < highest_return st) \<and>
          0 \<le> second_highest st \<and> second_highest st < highest_return st \<and>
          (second_highest st = 0 \<or>
           (\<exists>j<k. costs ! j \<noteq> -1 \<and> view_returns ! j = second_highest st)) \<and>
          (\<forall>j<k. costs ! j \<noteq> -1 \<longrightarrow> view_returns ! j \<le> second_highest st))"


text \<open>\<open>flags_only p p'\<close>: the planners \<open>p\<close> and \<open>p'\<close> differ at most in the five control flags.\<close>

definition flags_only :: "ViewPlanner \<Rightarrow> ViewPlanner \<Rightarrow> bool" where
  "flags_only p p' \<longleftrightarrow>
     cost_weight p' = cost_weight p \<and> information_weights p' = information_weights p \<and>
     view_space p' = view_space p \<and> current_view p' = current_view p \<and>
     planning_data_names p' = planning_data_names p \<and> planning_data p' = planning_data p"

text \<open>
  What \<^verbatim>\<open>saveDataToFile\<close> needs to be defined. The constructor establishes it and
  the planning loop keeps it.
\<close>

definition recorder_ok :: "ViewPlanner \<Rightarrow> bool" where
  "recorder_ok p \<longleftrightarrow> planning_data_names p \<noteq> [] \<and> [] \<notin> set (planning_data p)"

text \<open>
  What \<^verbatim>\<open>cost_description\<close> holds after the \<open>k\<close>-th call of a script: the response
  when the call succeeded, the default-constructed value when it failed.
\<close>

definition cost_description_of :: "Env \<Rightarrow> nat \<Rightarrow> MovementCost" where
  "cost_description_of e k =
     (case movement_cost_srv e ! k of None \<Rightarrow> uninit_movement_cost e | Some m \<Rightarrow> m)"

text \<open>The indices of the views tagged bad.\<close>

definition bad_views :: "ViewPlanner \<Rightarrow> nat set" where
  "bad_views p = {v. v < length (view_space p) \<and> snd (view_space p ! v) = Bad}"

text \<open>
  How a written file is read as a table: the value of a row in the column of a name is
  the value at the position that the name has in the first line, if the row reaches
  that far.
\<close>

definition table_cell :: "DataFile \<Rightarrow> nat \<Rightarrow> string \<Rightarrow> real option" where
  "table_cell f row name =
     (case getIndexForAdditionalField_from name (first_line f) 0 of
        None \<Rightarrow> None
      | Some column \<Rightarrow>
          if row < length (value_lines f) \<and> column < length (value_lines f ! row)
          then Some (value_lines f ! row ! column) else None)"

text \<open>
  The row under construction after one pass of the loop over the extra fields
  (\<^verbatim>\<open>if( nbv_data.size()<=index ) nbv_data.resize( index+1 ); nbv_data[index] = value;\<close>),
  and the row before the extra fields are written.
\<close>

definition field_written :: "real list \<Rightarrow> nat \<Rightarrow> real \<Rightarrow> real list" where
  "field_written nbv_data index v =
     (if length nbv_data \<le> index then resize nbv_data (index + 1) else nbv_data)[index := v]"

definition base_row :: "View \<Rightarrow> ReturnValueInformation \<Rightarrow> real \<Rightarrow> real list \<Rightarrow> real list" where
  "base_row nbv info c information_gain =
     [position_x (pose nbv), position_y (pose nbv), position_z (pose nbv),
      orientation_x (pose nbv), orientation_y (pose nbv), orientation_z (pose nbv),
      orientation_w (pose nbv),
      return_value info, winning_margin info, return_value_mean info, return_value_stddev info,
      c] @ information_gain"

text \<open>
  Modelled from the spec: \<^verbatim>\<open>st_is::StdError\<close> gives the mean and the variance of
  the values it is constructed on (utils/math.h is not among the sources; the
  variance is taken over the number of values). It is used in examples only; the
  statements hold for every such function.
\<close>

definition StdError_model :: StdError where
  "StdError_model v =
     (let m = sum_list v / real (length v)
      in (m, sum_list (map (\<lambda>x. (x - m)\<^sup>2) v) / real (length v)))"

subsection \<open>Example states\<close>

definition view_at :: "real \<Rightarrow> nat \<Rightarrow> View" where
  "view_at x k =
     \<lparr>pose = \<lparr>position_x = x, position_y = 0, position_z = 0, orientation_x = 0,
              orientation_y = 0, orientation_z = 0, orientation_w = 1\<rparr>,
      view_id = k\<rparr>"

text \<open>
  A planner with the default cost weight 1, weight 2 for the first metric and the
  default weight 0 for the others, started, over a view space of two good views; the
  same with every weight at its default; the same over a single good view.
\<close>

definition example_planner :: ViewPlanner where
  "example_planner =
     (ViewPlanner_new None (\<lambda>m. if m = ''NrOfUnknownVoxels'' then Some 2 else None) (view_at 0 0))
       \<lparr>start := True, view_space := [(view_at 1 1, Good), (view_at 2 2, Good)]\<rparr>"

definition default_planner :: ViewPlanner where
  "default_planner =
     (ViewPlanner_new None (\<lambda>m. None) (view_at 0 0))
       \<lparr>start := True, view_space := [(view_at 1 1, Good), (view_at 2 2, Good)]\<rparr>"

definition one_view_planner :: ViewPlanner where
  "one_view_planner = example_planner\<lparr>view_space := [(view_at 1 1, Good)]\<rparr>"


text \<open>An environment in which nothing is scripted, and scripts for one round.\<close>

definition quiet_env :: Env where
  "quiet_env =
     \<lparr>command_queue = [], movement_cost_srv = [], information_srv = [], retrieve_data_srv = [],
      move_to_srv = [], uninit_movement_cost = \<lparr>cost = 0, exception = NONE\<rparr>,
      movement_cost_requests = [], ros_log = [], files = []\<rparr>"

definition two_candidates_env :: Env where
  "two_candidates_env =
     quiet_env\<lparr>command_queue := [None],
       movement_cost_srv := [Some \<lparr>cost = 1, exception = NONE\<rparr>, Some \<lparr>cost = 2, exception = NONE\<rparr>],
       information_srv := [Some [5, 0, 0, 0, 0, 0, 0, 0, 0], Some [10, 0, 0, 0, 0, 0, 0, 0, 0]],
       retrieve_data_srv := [Some RECEIVED],
       move_to_srv := [Some True]\<rparr>"

definition one_candidate_env :: Env where
  "one_candidate_env =
     quiet_env\<lparr>command_queue := [None],
       movement_cost_srv := [Some \<lparr>cost = 1, exception = NONE\<rparr>],
       information_srv := [Some [5, 0, 0, 0, 0, 0, 0, 0, 0]],
       retrieve_data_srv := [Some RECEIVED],
       move_to_srv := [Some True]\<rparr>"

text \<open>A round over two good views in which the first candidate has the higher return.\<close>

definition best_first_env :: Env where
  "best_first_env =
     quiet_env\<lparr>command_queue := [None],
       movement_cost_srv := [Some \<lparr>cost = 2, exception = NONE\<rparr>, Some \<lparr>cost = 1, exception = NONE\<rparr>],
       information_srv := [Some [10, 0, 0, 0, 0, 0, 0, 0, 0], Some [5, 0, 0, 0, 0, 0, 0, 0, 0]],
       retrieve_data_srv := [Some RECEIVED],
       move_to_srv := [Some True]\<rparr>"

text \<open>
  Scripts for the retry helpers: two failures and then a success with no abort, and a
  failure, an abort in the spin after the second failure, and a success left unread.
\<close>

definition retry_env :: Env where
  "retry_env =
     quiet_env\<lparr>command_queue := [Some ''PRINT_DATA'', None, Some ''PAUSE''],
       retrieve_data_srv := [None, Some NOT_RECEIVED, Some RECEIVED, None],
       move_to_srv := [Some False, None, Some True]\<rparr>"

definition abort_env :: Env where
  "abort_env =
     quiet_env\<lparr>command_queue := [None, Some ''ABORT_LOOP'', Some ''START''],
       retrieve_data_srv := [None, None, Some RECEIVED],
       move_to_srv := [None, Some False, Some True]\<rparr>"

text \<open>
  A round in which the cost call for the first candidate fails, and a round in which
  it reports an exception, with the state the latter round ends in.
\<close>

definition cost_failure_env :: Env where
  "cost_failure_env =
     quiet_env\<lparr>command_queue := [None],
       movement_cost_srv := [None, Some \<lparr>cost = 2, exception = UNREACHABLE\<rparr>],
       information_srv := [Some [5, 0, 0, 0, 0, 0, 0, 0, 0]],
       retrieve_data_srv := [Some RECEIVED],
       move_to_srv := [Some True]\<rparr>"

definition exception_env :: Env where
  "exception_env =
     quiet_env\<lparr>command_queue := [None],
       movement_cost_srv := [Some \<lparr>cost = 1, exception = UNREACHABLE\<rparr>, Some \<lparr>cost = 2, exception = NONE\<rparr>],
       information_srv := [Some [10, 0, 0, 0, 0, 0, 0, 0, 0]],
       retrieve_data_srv := [Some RECEIVED],
       move_to_srv := [Some True]\<rparr>"

definition exception_round_planner :: ViewPlanner where
  "exception_round_planner =
     example_planner\<lparr>view_space := [(view_at 1 1, Bad), (view_at 2 2, Good)]\<rparr>"

definition exception_round_end :: "ViewPlanner \<times> Env" where
  "exception_round_end =
     (exception_round_planner\<lparr>planning_data :=
        [[2, 0, 0, 0, 0, 0, 1, 18, 18, 9, sqrt 81, 2, 10, 0, 0, 0, 0, 0, 0, 0, 0]]\<rparr>,
      quiet_env\<lparr>movement_cost_requests := [(view_at 0 0, view_at 1 1), (view_at 0 0, view_at 2 2)],
        ros_log := [(INFO, msg_retrieve_costs), (INFO, msg_retrieve_information),
                    (INFO, msg_calculating), (INFO, msg_move_success),
                    (INFO, msg_retrieve_success)]\<rparr>)"

text \<open>
  Two rows recorded with extra fields on the planner as constructed, and the file
  written after them.
\<close>

definition example_info :: ReturnValueInformation where
  "example_info = \<lparr>return_value = 9, winning_margin = 9, return_value_mean = 9, return_value_stddev = 0\<rparr>"

definition backfill_row1 :: "real list" where
  "backfill_row1 = [1, 0, 0, 0, 0, 0, 1, 9, 9, 9, 0, 1, 5, 0, 0, 0, 0, 0, 0, 0, 0, 7, 8]"

definition backfill_row2 :: "real list" where
  "backfill_row2 = [2, 0, 0, 0, 0, 0, 1, 9, 9, 9, 0, 2, 10, 0, 0, 0, 0, 0, 0, 0, 0, 70, 0, 90]"

definition backfill_planner1 :: ViewPlanner where
  "backfill_planner1 =
     example_planner\<lparr>planning_data_names := planning_data_names example_planner @ [''A'', ''B''],
       planning_data := [backfill_row1]\<rparr>"

definition backfill_planner2 :: ViewPlanner where
  "backfill_planner2 =
     example_planner\<lparr>planning_data_names := planning_data_names example_planner @ [''A'', ''B'', ''C''],
       planning_data := [backfill_row1, backfill_row2]\<rparr>"

definition backfill_file :: DataFile where
  "backfill_file =
     \<lparr>first_line = planning_data_names example_planner @ [''A'', ''B'', ''C''],
      value_lines = [backfill_row1, backfill_row2]\<rparr>"

section \<open>Properties\<close>

subsection \<open>calculateReturn\<close>

lemma calculateReturn_loop_sum:
  "i \<le> length informations \<Longrightarrow>
   calculateReturn_loop ws informations i r =
     r + (\<Sum>k = i..<length informations. ws ! k * informations ! k)"
proof (induction ws informations i r rule: calculateReturn_loop.induct)
  case (1 ws informations i r)
  show ?case
  proof (cases "i < length informations")
    case True
    then have "calculateReturn_loop ws informations i r =
        calculateReturn_loop ws informations (Suc i) (r + ws ! i * informations ! i)"
      by (simp add: calculateReturn_loop.simps [of ws informations i])
    also have "\<dots> = r + ws ! i * informations ! i +
        (\<Sum>k = Suc i..<length informations. ws ! k * informations ! k)"
      using True "1.IH" by simp
    also have "\<dots> = r + (\<Sum>k = i..<length informations. ws ! k * informations ! k)"
      using True by (simp add: sum.atLeast_Suc_lessThan)
    finally show ?thesis .
  next
    case False
    with "1.prems" show ?thesis
      by (subst calculateReturn_loop.simps) simp
  qed
qed

lemma example_planner_weights:
  "cost_weight example_planner = 1 \<and>
   information_weights example_planner = [2, 0, 0, 0, 0, 0, 0, 0, 0]"
  by (simp add: example_planner_def ViewPlanner_new_def metrics_to_use_def)

text \<open>
  Without rounding, the value is the cost term plus the exact weighted sum, and the
  function with the rounding written out is \<open>calculateReturn\<close> when nothing is rounded.
\<close>

lemma calculateReturn_exact_sum:
  "length informations \<le> length (information_weights p) \<Longrightarrow>
   fst (calculateReturn p c informations e) =
     - cost_weight p * c +
       (\<Sum>i<length informations. information_weights p ! i * informations ! i)"
  by (simp add: calculateReturn_def calculateReturn_loop_sum lessThan_atLeast0)

lemma calculateReturn_loop_rounded_id:
  "calculateReturn_loop_rounded (\<lambda>x. x) ws informations i r =
   calculateReturn_loop ws informations i r"
proof (induction ws informations i r rule: calculateReturn_loop.induct)
  case (1 ws informations i r)
  show ?case
  proof (cases "i < length informations")
    case True
    with "1.IH" show ?thesis
      by (subst calculateReturn_loop_rounded.simps, subst calculateReturn_loop.simps) simp
  next
    case False
    then show ?thesis
      by (subst calculateReturn_loop_rounded.simps, subst calculateReturn_loop.simps) simp
  qed
qed

lemma calculateReturn_rounded_id:
  "calculateReturn_rounded (\<lambda>x. x) p c informations e = calculateReturn p c informations e"
  by (simp add: calculateReturn_rounded_def calculateReturn_def calculateReturn_loop_rounded_id Let_def)













text \<open>
  Claim C9 says that an information vector longer than the weight vector has only its
  excess entries dropped, the leading entries still being credited, with a warning.
  The code differs: with nine weights and ten information values it returns the cost
  term \<open>-1\<close> and logs an error, where that reading gives \<open>-1 + 2 * 5 = 9\<close> and a
  warning.
\<close>

theorem calculateReturn_drops_excess_counterexample:
  "length [5, 3, 1, 1, 1, 1, 1, 1, 1, 1 :: real] > length (information_weights example_planner) \<and>
   calculateReturn example_planner 1 [5, 3, 1, 1, 1, 1, 1, 1, 1, 1] quiet_env =
     (-1, ros_log_append ERROR msg_not_enough_weights quiet_env) \<and>
   calculateReturn_dropping_excess example_planner 1 [5, 3, 1, 1, 1, 1, 1, 1, 1, 1] quiet_env =
     (9, ros_log_append WARN msg_not_enough_weights quiet_env) \<and>
   calculateReturn example_planner 1 [5, 3, 1, 1, 1, 1, 1, 1, 1, 1] quiet_env \<noteq>
     calculateReturn_dropping_excess example_planner 1 [5, 3, 1, 1, 1, 1, 1, 1, 1, 1] quiet_env"
  by (simp add: calculateReturn_def calculateReturn_dropping_excess_def example_planner_weights
      lessThan_Suc eval_nat_numeral)

text \<open>
  Claim C9, amended. When the information vector is longer than the weight vector,
  \<^verbatim>\<open>calculateReturn\<close> credits no entry at all: it returns the cost term alone, logs
  one line at error level and returns normally.
\<close>

theorem calculateReturn_too_long:
  "length informations > length (information_weights p) \<Longrightarrow>
   calculateReturn p c informations e =
     (- cost_weight p * c, ros_log_append ERROR msg_not_enough_weights e)"
  by (simp add: calculateReturn_def)

theorem calculateReturn_too_long_witness:
  "calculateReturn example_planner 1 [5, 3, 1, 1, 1, 1, 1, 1, 1, 1] quiet_env =
     (-1, ros_log_append ERROR msg_not_enough_weights quiet_env)"
  using calculateReturn_too_long [of example_planner "[5, 3, 1, 1, 1, 1, 1, 1, 1, 1]" 1 quiet_env]
  by (simp add: example_planner_weights)

subsection \<open>The scan\<close>

lemma nbv_scan_inv_init: "nbv_scan_inv costs view_returns 0 nbv_scan_init"
  by (simp add: nbv_scan_inv_def nbv_scan_init_def)

lemma nbv_scan_inv_step:
  assumes "nbv_scan_inv costs view_returns i st"
  shows "nbv_scan_inv costs view_returns (Suc i) (nbv_scan_step costs view_returns i st)"
proof (cases "costs ! i = -1")
  case True
  with assms show ?thesis
    by (auto simp: nbv_scan_inv_def nbv_scan_step_def less_Suc_eq split: option.splits)
next
  case viable: False
  show ?thesis
  proof (cases "view_returns ! i > highest_return st")
    case True
    have st: "nbv_scan_step costs view_returns i st =
        \<lparr>nbv_index = Some i, highest_return = view_returns ! i, second_highest = highest_return st\<rparr>"
      using viable True by (simp add: nbv_scan_step_def)
    have hi: "0 \<le> highest_return st"
      using assms by (auto simp: nbv_scan_inv_def split: option.splits)
    have below: "\<forall>j<i. costs ! j \<noteq> -1 \<longrightarrow> view_returns ! j \<le> highest_return st"
      using assms by (simp add: nbv_scan_inv_def)
    have runner: "highest_return st = 0 \<or> (\<exists>j<i. costs ! j \<noteq> -1 \<and> view_returns ! j = highest_return st)"
      using assms by (auto simp: nbv_scan_inv_def split: option.splits)
    show ?thesis
      unfolding st nbv_scan_inv_def using viable True hi below runner
      by (auto simp: less_Suc_eq)
  next
    case False
    then have st: "nbv_scan_step costs view_returns i st = st"
      using viable by (simp add: nbv_scan_step_def)
    show ?thesis
      unfolding st using assms False
      by (auto simp: nbv_scan_inv_def less_Suc_eq split: option.splits)
  qed
qed

lemma nbv_scan_from_inv:
  "nbv_scan_inv costs view_returns i st \<Longrightarrow> i \<le> n \<Longrightarrow>
   nbv_scan_inv costs view_returns n (nbv_scan_from costs view_returns n i st)"
proof (induction costs view_returns n i st rule: nbv_scan_from.induct)
  case (1 costs view_returns n i st)
  show ?case
  proof (cases "i < n")
    case True
    then show ?thesis
      using "1.IH" [OF True nbv_scan_inv_step [OF "1.prems"(1)]]
      by (subst nbv_scan_from.simps) simp
  next
    case False
    with "1.prems" have "i = n" by simp
    with "1.prems" show ?thesis
      by (subst nbv_scan_from.simps) simp
  qed
qed

lemma nbv_scan_inv:
  "nbv_scan_inv costs view_returns (length views_to_consider)
     (nbv_scan views_to_consider costs view_returns)"
  unfolding nbv_scan_def by (rule nbv_scan_from_inv [OF nbv_scan_inv_init]) simp

text \<open>What the scan does select: the lowest index of the maximum, when that maximum is positive.\<close>

lemma nbv_scan_positive_maximum:
  assumes "i < length views_to_consider" "costs ! i \<noteq> -1" "0 < view_returns ! i"
  shows "\<exists>k. nbv_index (nbv_scan views_to_consider costs view_returns) = Some k \<and>
     k < length views_to_consider \<and> costs ! k \<noteq> -1 \<and>
     highest_return (nbv_scan views_to_consider costs view_returns) = view_returns ! k \<and>
     (\<forall>j<length views_to_consider. costs ! j \<noteq> -1 \<longrightarrow> view_returns ! j \<le> view_returns ! k) \<and>
     (\<forall>j<k. costs ! j \<noteq> -1 \<longrightarrow> view_returns ! j < view_returns ! k)"
proof -
  let ?st = "nbv_scan views_to_consider costs view_returns"
  have inv: "nbv_scan_inv costs view_returns (length views_to_consider) ?st"
    by (rule nbv_scan_inv)
  then have "view_returns ! i \<le> highest_return ?st"
    using assms by (simp add: nbv_scan_inv_def)
  with assms have "0 < highest_return ?st" by simp
  with inv obtain k where "nbv_index ?st = Some k"
    by (cases "nbv_index ?st") (auto simp: nbv_scan_inv_def)
  with inv show ?thesis
    by (auto simp: nbv_scan_inv_def)
qed

lemma nbv_scan_none:
  assumes "\<forall>i<length views_to_consider. costs ! i \<noteq> -1 \<longrightarrow> view_returns ! i \<le> 0"
  shows "nbv_scan views_to_consider costs view_returns = nbv_scan_init"
proof -
  let ?st = "nbv_scan views_to_consider costs view_returns"
  have inv: "nbv_scan_inv costs view_returns (length views_to_consider) ?st"
    by (rule nbv_scan_inv)
  have "nbv_index ?st = None"
  proof (cases "nbv_index ?st")
    case (Some k)
    with inv have "k < length views_to_consider" "costs ! k \<noteq> -1" "0 < view_returns ! k"
      by (auto simp: nbv_scan_inv_def)
    with assms show ?thesis by force
  qed simp
  with inv have "highest_return ?st = 0" "second_highest ?st = 0" "nbv_index ?st = None"
    by (auto simp: nbv_scan_inv_def)
  then show ?thesis
    by (cases ?st) (simp add: nbv_scan_init_def)
qed

subsection \<open>What spinning and waiting leave unchanged\<close>

lemma flags_only_refl [simp]: "flags_only p p"
  by (simp add: flags_only_def)

lemma flags_only_trans: "flags_only p p1 \<Longrightarrow> flags_only p1 p2 \<Longrightarrow> flags_only p p2"
  by (simp add: flags_only_def)

lemma commandCallback_flags_only:
  "commandCallback m (p, e) = Inr (p', e') \<Longrightarrow> flags_only p p'"
  by (auto simp: commandCallback_def flags_only_def and_then_Inr_iff split: if_splits)

lemma spinOnce_flags_only:
  "spinOnce (p, e) = Inr (p', e') \<Longrightarrow> flags_only p p'"
  by (auto simp: spinOnce_def split: list.splits option.splits dest: commandCallback_flags_only)

lemma pauseIfRequested_loop_flags_only:
  "pauseIfRequested_loop pe = Inr pe' \<Longrightarrow> flags_only (fst pe) (fst pe')"
proof (induction pe arbitrary: pe' rule: pauseIfRequested_loop.induct)
  case (1 pe)
  from "1.prems" obtain pe1 where s: "spinOnce pe = Inr pe1"
    and r: "(if pause (fst pe1) then pauseIfRequested_loop pe1 else Inr pe1) = Inr pe'"
    by (subst (asm) pauseIfRequested_loop.simps) (auto simp: and_then_Inr_iff)
  have f1: "flags_only (fst pe) (fst pe1)"
    using s spinOnce_flags_only [of "fst pe" "snd pe" "fst pe1" "snd pe1"] by simp
  show ?case
  proof (cases "pause (fst pe1)")
    case True
    with r "1.IH" [OF s True] have "flags_only (fst pe1) (fst pe')" by simp
    with f1 show ?thesis by (rule flags_only_trans)
  next
    case False
    with r f1 show ?thesis by simp
  qed
qed

lemma pauseIfRequested_flags_only:
  "pauseIfRequested (p, e) = Inr (p', e') \<Longrightarrow> flags_only p p'"
  using pauseIfRequested_loop_flags_only [of "(p, ros_log_append INFO msg_paused e)" "(p', e')"]
  by (auto simp: pauseIfRequested_def split: if_splits)

lemma retrieveDataAndWait_loop_flags_only:
  "retrieveDataAndWait_loop ri pe = Inr pe' \<Longrightarrow> flags_only (fst pe) (fst pe')"
proof (induction ri pe arbitrary: pe' rule: retrieveDataAndWait_loop.induct)
  case (1 ri pe)
  from "1.prems" obtain ok ri' e1 where d: "retrieveData ri (snd pe) = Inr (ok, ri', e1)"
    and r: "(if \<not> ok \<or> ri' \<noteq> Some RECEIVED
             then and_then (spinOnce (fst pe, ros_log_append INFO msg_retrieve_retry e1)) (\<lambda>pe2.
                    if \<not> abort_loop (fst pe2) then retrieveDataAndWait_loop ri' pe2 else Inr pe2)
             else Inr (fst pe, e1)) = Inr pe'"
    by (subst (asm) retrieveDataAndWait_loop.simps) (auto simp: and_then_Inr_iff)
  show ?case
  proof (cases "\<not> ok \<or> ri' \<noteq> Some RECEIVED")
    case failed: True
    with r obtain pe2 where s: "spinOnce (fst pe, ros_log_append INFO msg_retrieve_retry e1) = Inr pe2"
      and r2: "(if \<not> abort_loop (fst pe2) then retrieveDataAndWait_loop ri' pe2 else Inr pe2) = Inr pe'"
      by (auto simp: and_then_Inr_iff)
    have f1: "flags_only (fst pe) (fst pe2)"
      using s spinOnce_flags_only [of "fst pe" _ "fst pe2" "snd pe2"] by simp
    show ?thesis
    proof (cases "abort_loop (fst pe2)")
      case True
      with r2 f1 show ?thesis by simp
    next
      case False
      with r2 have "retrieveDataAndWait_loop ri' pe2 = Inr pe'" by simp
      from "1.IH" [OF d refl refl failed s False this] f1 show ?thesis
        by (blast intro: flags_only_trans)
    qed
  next
    case False
    with r show ?thesis by auto
  qed
qed

subsection \<open>The retry helpers\<close>

lemma flags_only_recorder_ok: "flags_only p p' \<Longrightarrow> recorder_ok p \<Longrightarrow> recorder_ok p'"
  by (simp add: flags_only_def recorder_ok_def)

lemma spinOnce_no_abort:
  assumes "command_queue e = c # q" "c \<noteq> Some ''ABORT_LOOP''" "recorder_ok p"
  shows "\<exists>p' e'. spinOnce (p, e) = Inr (p', e') \<and> flags_only p p' \<and>
           abort_loop p' = abort_loop p \<and> command_queue e' = q \<and>
           retrieve_data_srv e' = retrieve_data_srv e \<and> move_to_srv e' = move_to_srv e \<and>
           ros_log e' = ros_log e"
proof (cases c)
  case None
  with assms show ?thesis by (simp add: spinOnce_def)
next
  case (Some m)
  with assms have m: "m \<noteq> ''ABORT_LOOP''" by simp
  have "\<exists>p' e'. commandCallback m (p, e\<lparr>command_queue := q\<rparr>) = Inr (p', e') \<and>
      abort_loop p' = abort_loop p"
    using m assms(3)
    by (simp add: commandCallback_def saveDataToFile_def recorder_ok_def)
  then obtain p' e' where cb: "commandCallback m (p, e\<lparr>command_queue := q\<rparr>) = Inr (p', e')"
    and ab: "abort_loop p' = abort_loop p" by blast
  from commandCallback_scripts [OF cb] commandCallback_flags_only [OF cb] ab cb Some assms(1)
  show ?thesis by (simp add: spinOnce_def)
qed

lemma spinOnce_abort:
  "command_queue e = Some ''ABORT_LOOP'' # q \<Longrightarrow>
   spinOnce (p, e) = Inr (p\<lparr>abort_loop := True\<rparr>, e\<lparr>command_queue := q\<rparr>)"
  by (simp add: spinOnce_def commandCallback_def)

lemma retrieveData_fails:
  "retrieve_data_srv e = r # rest \<Longrightarrow> r \<noteq> Some RECEIVED \<Longrightarrow>
   \<exists>ok ri'. retrieveData ri e = Inr (ok, ri', e\<lparr>retrieve_data_srv := rest\<rparr>) \<and>
     (\<not> ok \<or> ri' \<noteq> Some RECEIVED)"
  by (cases r) (auto simp: retrieveData_def)

lemma retrieveDataAndWait_loop_success:
  assumes "\<forall>r\<in>set fails. r \<noteq> Some RECEIVED"
    and "retrieve_data_srv e = fails @ Some RECEIVED # rest"
    and "command_queue e = cmds @ q" "length cmds = length fails"
    and "Some ''ABORT_LOOP'' \<notin> set cmds" "\<not> abort_loop p" "recorder_ok p"
  shows "\<exists>p' e'. retrieveDataAndWait_loop ri (p, e) = Inr (p', e') \<and>
           retrieve_data_srv e' = rest \<and> command_queue e' = q \<and> move_to_srv e' = move_to_srv e \<and>
           \<not> abort_loop p' \<and> flags_only p p' \<and>
           ros_log e' = ros_log e @ replicate (length fails) (INFO, msg_retrieve_retry)"
  using assms
proof (induction fails arbitrary: ri p e cmds)
  case Nil
  then show ?case
    by (subst retrieveDataAndWait_loop.simps) (simp add: retrieveData_def)
next
  case (Cons r fs)
  from Cons.prems obtain c cs where cmds: "cmds = c # cs"
    by (cases cmds) auto
  from Cons.prems have r: "r \<noteq> Some RECEIVED" and srv: "retrieve_data_srv e = r # (fs @ Some RECEIVED # rest)"
    by auto
  let ?e1 = "e\<lparr>retrieve_data_srv := fs @ Some RECEIVED # rest\<rparr>"
  let ?e1' = "ros_log_append INFO msg_retrieve_retry ?e1"
  from retrieveData_fails [OF srv r] obtain ok ri' where
    d: "retrieveData ri e = Inr (ok, ri', ?e1)" and failed: "\<not> ok \<or> ri' \<noteq> Some RECEIVED"
    by blast
  have q1: "command_queue ?e1' = c # (cs @ q)"
    using Cons.prems cmds by (simp add: ros_log_append_def)
  have c: "c \<noteq> Some ''ABORT_LOOP''" using Cons.prems cmds by auto
  from spinOnce_no_abort [OF q1 c \<open>recorder_ok p\<close>] obtain p2 e2 where
    s: "spinOnce (p, ?e1') = Inr (p2, e2)" and f2: "flags_only p p2"
    and a2: "abort_loop p2 = abort_loop p" and q2: "command_queue e2 = cs @ q"
    and d2: "retrieve_data_srv e2 = retrieve_data_srv ?e1'" and m2: "move_to_srv e2 = move_to_srv ?e1'"
    and l2: "ros_log e2 = ros_log ?e1'"
    by blast
  have "\<exists>p' e'. retrieveDataAndWait_loop ri' (p2, e2) = Inr (p', e') \<and>
           retrieve_data_srv e' = rest \<and> command_queue e' = q \<and> move_to_srv e' = move_to_srv e2 \<and>
           \<not> abort_loop p' \<and> flags_only p2 p' \<and>
           ros_log e' = ros_log e2 @ replicate (length fs) (INFO, msg_retrieve_retry)"
  proof (rule Cons.IH)
    show "\<forall>r\<in>set fs. r \<noteq> Some RECEIVED" using Cons.prems by simp
    show "retrieve_data_srv e2 = fs @ Some RECEIVED # rest" using d2 by (simp add: ros_log_append_def)
    show "command_queue e2 = cs @ q" by (rule q2)
    show "length cs = length fs" using Cons.prems cmds by simp
    show "Some ''ABORT_LOOP'' \<notin> set cs" using Cons.prems cmds by simp
    show "\<not> abort_loop p2" using a2 Cons.prems by simp
    show "recorder_ok p2" using f2 Cons.prems by (blast intro: flags_only_recorder_ok)
  qed
  then obtain p' e' where rec: "retrieveDataAndWait_loop ri' (p2, e2) = Inr (p', e')"
    and res: "retrieve_data_srv e' = rest" "command_queue e' = q" "move_to_srv e' = move_to_srv e2"
      "\<not> abort_loop p'" "flags_only p2 p'"
      "ros_log e' = ros_log e2 @ replicate (length fs) (INFO, msg_retrieve_retry)"
    by blast
  have "retrieveDataAndWait_loop ri (p, e) = Inr (p', e')"
    using d failed s rec a2 Cons.prems(6)
    by (subst retrieveDataAndWait_loop.simps) auto
  moreover have "ros_log e' = ros_log e @ replicate (length (r # fs)) (INFO, msg_retrieve_retry)"
    using res l2 by (simp add: ros_log_append_def replicate_append_same)
  moreover have "move_to_srv e' = move_to_srv e" using res m2 by (simp add: ros_log_append_def)
  ultimately show ?case
    using res f2 by (blast intro: flags_only_trans)
qed

lemma retrieveDataAndWait_loop_abort:
  assumes "\<forall>r\<in>set fails. r \<noteq> Some RECEIVED" "r \<noteq> Some RECEIVED"
    and "retrieve_data_srv e = fails @ r # rest"
    and "command_queue e = cmds @ Some ''ABORT_LOOP'' # q" "length cmds = length fails"
    and "Some ''ABORT_LOOP'' \<notin> set cmds" "\<not> abort_loop p" "recorder_ok p"
  shows "\<exists>p' e'. retrieveDataAndWait_loop ri (p, e) = Inr (p', e') \<and>
           retrieve_data_srv e' = rest \<and> command_queue e' = q \<and> move_to_srv e' = move_to_srv e \<and>
           abort_loop p' \<and> flags_only p p' \<and>
           ros_log e' = ros_log e @ replicate (Suc (length fails)) (INFO, msg_retrieve_retry)"
  using assms
proof (induction fails arbitrary: ri p e cmds)
  case Nil
  let ?e1 = "e\<lparr>retrieve_data_srv := rest\<rparr>"
  let ?e1' = "ros_log_append INFO msg_retrieve_retry ?e1"
  from Nil.prems have srv: "retrieve_data_srv e = r # rest" by simp
  from retrieveData_fails [OF srv \<open>r \<noteq> Some RECEIVED\<close>] obtain ok ri' where
    d: "retrieveData ri e = Inr (ok, ri', ?e1)" and failed: "\<not> ok \<or> ri' \<noteq> Some RECEIVED"
    by blast
  have "command_queue ?e1' = Some ''ABORT_LOOP'' # q"
    using Nil.prems by (simp add: ros_log_append_def)
  from spinOnce_abort [OF this]
  have s: "spinOnce (p, ?e1') = Inr (p\<lparr>abort_loop := True\<rparr>, ?e1'\<lparr>command_queue := q\<rparr>)" .
  have "retrieveDataAndWait_loop ri (p, e) = Inr (p\<lparr>abort_loop := True\<rparr>, ?e1'\<lparr>command_queue := q\<rparr>)"
    using d failed s by (subst retrieveDataAndWait_loop.simps) auto
  then show ?case
    by (simp add: ros_log_append_def flags_only_def)
next
  case (Cons r0 fs)
  from Cons.prems obtain c cs where cmds: "cmds = c # cs"
    by (cases cmds) auto
  from Cons.prems have r0: "r0 \<noteq> Some RECEIVED" and srv: "retrieve_data_srv e = r0 # (fs @ r # rest)"
    by auto
  let ?e1 = "e\<lparr>retrieve_data_srv := fs @ r # rest\<rparr>"
  let ?e1' = "ros_log_append INFO msg_retrieve_retry ?e1"
  from retrieveData_fails [OF srv r0] obtain ok ri' where
    d: "retrieveData ri e = Inr (ok, ri', ?e1)" and failed: "\<not> ok \<or> ri' \<noteq> Some RECEIVED"
    by blast
  have q1: "command_queue ?e1' = c # (cs @ Some ''ABORT_LOOP'' # q)"
    using Cons.prems cmds by (simp add: ros_log_append_def)
  have c: "c \<noteq> Some ''ABORT_LOOP''" using Cons.prems cmds by auto
  from spinOnce_no_abort [OF q1 c \<open>recorder_ok p\<close>] obtain p2 e2 where
    s: "spinOnce (p, ?e1') = Inr (p2, e2)" and f2: "flags_only p p2"
    and a2: "abort_loop p2 = abort_loop p" and q2: "command_queue e2 = cs @ Some ''ABORT_LOOP'' # q"
    and d2: "retrieve_data_srv e2 = retrieve_data_srv ?e1'" and m2: "move_to_srv e2 = move_to_srv ?e1'"
    and l2: "ros_log e2 = ros_log ?e1'"
    by blast
  have "\<exists>p' e'. retrieveDataAndWait_loop ri' (p2, e2) = Inr (p', e') \<and>
           retrieve_data_srv e' = rest \<and> command_queue e' = q \<and> move_to_srv e' = move_to_srv e2 \<and>
           abort_loop p' \<and> flags_only p2 p' \<and>
           ros_log e' = ros_log e2 @ replicate (Suc (length fs)) (INFO, msg_retrieve_retry)"
  proof (rule Cons.IH)
    show "\<forall>r\<in>set fs. r \<noteq> Some RECEIVED" using Cons.prems by simp
    show "r \<noteq> Some RECEIVED" by (rule Cons.prems)
    show "retrieve_data_srv e2 = fs @ r # rest" using d2 by (simp add: ros_log_append_def)
    show "command_queue e2 = cs @ Some ''ABORT_LOOP'' # q" by (rule q2)
    show "length cs = length fs" using Cons.prems cmds by simp
    show "Some ''ABORT_LOOP'' \<notin> set cs" using Cons.prems cmds by simp
    show "\<not> abort_loop p2" using a2 Cons.prems by simp
    show "recorder_ok p2" using f2 Cons.prems by (blast intro: flags_only_recorder_ok)
  qed
  then obtain p' e' where rec: "retrieveDataAndWait_loop ri' (p2, e2) = Inr (p', e')"
    and res: "retrieve_data_srv e' = rest" "command_queue e' = q" "move_to_srv e' = move_to_srv e2"
      "abort_loop p'" "flags_only p2 p'"
      "ros_log e' = ros_log e2 @ replicate (Suc (length fs)) (INFO, msg_retrieve_retry)"
    by blast
  have "retrieveDataAndWait_loop ri (p, e) = Inr (p', e')"
    using d failed s rec a2 Cons.prems(7)
    by (subst retrieveDataAndWait_loop.simps) auto
  moreover have "ros_log e' = ros_log e @ replicate (Suc (length (r0 # fs))) (INFO, msg_retrieve_retry)"
    using res l2 by (simp add: ros_log_append_def replicate_append_same)
  moreover have "move_to_srv e' = move_to_srv e" using res m2 by (simp add: ros_log_append_def)
  ultimately show ?case
    using res f2 by (blast intro: flags_only_trans)
qed

lemma retrieveDataAndWait_success:
  assumes "\<forall>r\<in>set fails. r \<noteq> Some RECEIVED"
    and "retrieve_data_srv e = fails @ Some RECEIVED # rest"
    and "command_queue e = cmds @ q" "length cmds = length fails"
    and "Some ''ABORT_LOOP'' \<notin> set cmds" "\<not> abort_loop p" "recorder_ok p"
  shows "\<exists>p' e'. retrieveDataAndWait (p, e) = Inr (p', e') \<and>
           retrieve_data_srv e' = rest \<and> command_queue e' = q \<and> \<not> abort_loop p' \<and>
           ros_log e' = ros_log e @ replicate (length fails) (INFO, msg_retrieve_retry) @
             [(INFO, msg_retrieve_success)]"
proof -
  from retrieveDataAndWait_loop_success [OF assms, of None] obtain p' e' where
    "retrieveDataAndWait_loop None (p, e) = Inr (p', e')" "retrieve_data_srv e' = rest"
    "command_queue e' = q" "\<not> abort_loop p'"
    "ros_log e' = ros_log e @ replicate (length fails) (INFO, msg_retrieve_retry)"
    by blast
  then show ?thesis
    by (simp add: retrieveDataAndWait_def ros_log_append_def)
qed

lemma retrieveDataAndWait_abort:
  assumes "\<forall>r\<in>set fails. r \<noteq> Some RECEIVED" "r \<noteq> Some RECEIVED"
    and "retrieve_data_srv e = fails @ r # rest"
    and "command_queue e = cmds @ Some ''ABORT_LOOP'' # q" "length cmds = length fails"
    and "Some ''ABORT_LOOP'' \<notin> set cmds" "\<not> abort_loop p" "recorder_ok p"
  shows "\<exists>p' e'. retrieveDataAndWait (p, e) = Inr (p', e') \<and>
           retrieve_data_srv e' = rest \<and> command_queue e' = q \<and> \<not> abort_loop p' \<and>
           ros_log e' = ros_log e @ replicate (Suc (length fails)) (INFO, msg_retrieve_retry) @
             [(INFO, msg_retrieve_abort)]"
proof -
  from retrieveDataAndWait_loop_abort [OF assms, of None] obtain p' e' where
    "retrieveDataAndWait_loop None (p, e) = Inr (p', e')" "retrieve_data_srv e' = rest"
    "command_queue e' = q" "abort_loop p'"
    "ros_log e' = ros_log e @ replicate (Suc (length fails)) (INFO, msg_retrieve_retry)"
    by blast
  then show ?thesis
    by (simp add: retrieveDataAndWait_def ros_log_append_def)
qed

lemma moveTo_fails:
  "move_to_srv e = r # rest \<Longrightarrow> r \<noteq> Some True \<Longrightarrow>
   \<exists>ok ri'. moveTo ri target_view e = Inr (ok, ri', e\<lparr>move_to_srv := rest\<rparr>) \<and>
     (\<not> ok \<or> ri' \<noteq> Some True)"
  by (cases r) (auto simp: moveTo_def)

lemma moveToAndWait_loop_success:
  assumes "\<forall>r\<in>set fails. r \<noteq> Some True"
    and "move_to_srv e = fails @ Some True # rest"
    and "command_queue e = cmds @ q" "length cmds = length fails"
    and "Some ''ABORT_LOOP'' \<notin> set cmds" "\<not> abort_loop p" "recorder_ok p"
  shows "\<exists>p' e'. moveToAndWait_loop target_view ri (p, e) = Inr (p', e') \<and>
           move_to_srv e' = rest \<and> command_queue e' = q \<and> retrieve_data_srv e' = retrieve_data_srv e \<and>
           \<not> abort_loop p' \<and> flags_only p p' \<and>
           ros_log e' = ros_log e @ replicate (length fails) (INFO, msg_move_retry)"
  using assms
proof (induction fails arbitrary: ri p e cmds)
  case Nil
  then show ?case
    by (subst moveToAndWait_loop.simps) (simp add: moveTo_def)
next
  case (Cons r fs)
  from Cons.prems obtain c cs where cmds: "cmds = c # cs"
    by (cases cmds) auto
  from Cons.prems have r: "r \<noteq> Some True" and srv: "move_to_srv e = r # (fs @ Some True # rest)"
    by auto
  let ?e1 = "e\<lparr>move_to_srv := fs @ Some True # rest\<rparr>"
  let ?e1' = "ros_log_append INFO msg_move_retry ?e1"
  from moveTo_fails [OF srv r] obtain ok ri' where
    d: "moveTo ri target_view e = Inr (ok, ri', ?e1)" and failed: "\<not> ok \<or> ri' \<noteq> Some True"
    by blast
  have q1: "command_queue ?e1' = c # (cs @ q)"
    using Cons.prems cmds by (simp add: ros_log_append_def)
  have c: "c \<noteq> Some ''ABORT_LOOP''" using Cons.prems cmds by auto
  from spinOnce_no_abort [OF q1 c \<open>recorder_ok p\<close>] obtain p2 e2 where
    s: "spinOnce (p, ?e1') = Inr (p2, e2)" and f2: "flags_only p p2"
    and a2: "abort_loop p2 = abort_loop p" and q2: "command_queue e2 = cs @ q"
    and d2: "move_to_srv e2 = move_to_srv ?e1'" and m2: "retrieve_data_srv e2 = retrieve_data_srv ?e1'"
    and l2: "ros_log e2 = ros_log ?e1'"
    by blast
  have "\<exists>p' e'. moveToAndWait_loop target_view ri' (p2, e2) = Inr (p', e') \<and>
           move_to_srv e' = rest \<and> command_queue e' = q \<and> retrieve_data_srv e' = retrieve_data_srv e2 \<and>
           \<not> abort_loop p' \<and> flags_only p2 p' \<and>
           ros_log e' = ros_log e2 @ replicate (length fs) (INFO, msg_move_retry)"
  proof (rule Cons.IH)
    show "\<forall>r\<in>set fs. r \<noteq> Some True" using Cons.prems by simp
    show "move_to_srv e2 = fs @ Some True # rest" using d2 by (simp add: ros_log_append_def)
    show "command_queue e2 = cs @ q" by (rule q2)
    show "length cs = length fs" using Cons.prems cmds by simp
    show "Some ''ABORT_LOOP'' \<notin> set cs" using Cons.prems cmds by simp
    show "\<not> abort_loop p2" using a2 Cons.prems by simp
    show "recorder_ok p2" using f2 Cons.prems by (blast intro: flags_only_recorder_ok)
  qed
  then obtain p' e' where rec: "moveToAndWait_loop target_view ri' (p2, e2) = Inr (p', e')"
    and res: "move_to_srv e' = rest" "command_queue e' = q" "retrieve_data_srv e' = retrieve_data_srv e2"
      "\<not> abort_loop p'" "flags_only p2 p'"
      "ros_log e' = ros_log e2 @ replicate (length fs) (INFO, msg_move_retry)"
    by blast
  have "moveToAndWait_loop target_view ri (p, e) = Inr (p', e')"
    using d failed s rec a2 Cons.prems(6)
    by (subst moveToAndWait_loop.simps) auto
  moreover have "ros_log e' = ros_log e @ replicate (length (r # fs)) (INFO, msg_move_retry)"
    using res l2 by (simp add: ros_log_append_def replicate_append_same)
  moreover have "retrieve_data_srv e' = retrieve_data_srv e" using res m2 by (simp add: ros_log_append_def)
  ultimately show ?case
    using res f2 by (blast intro: flags_only_trans)
qed

lemma moveToAndWait_loop_abort:
  assumes "\<forall>r\<in>set fails. r \<noteq> Some True" "r \<noteq> Some True"
    and "move_to_srv e = fails @ r # rest"
    and "command_queue e = cmds @ Some ''ABORT_LOOP'' # q" "length cmds = length fails"
    and "Some ''ABORT_LOOP'' \<notin> set cmds" "\<not> abort_loop p" "recorder_ok p"
  shows "\<exists>p' e'. moveToAndWait_loop target_view ri (p, e) = Inr (p', e') \<and>
           move_to_srv e' = rest \<and> command_queue e' = q \<and> retrieve_data_srv e' = retrieve_data_srv e \<and>
           abort_loop p' \<and> flags_only p p' \<and>
           ros_log e' = ros_log e @ replicate (Suc (length fails)) (INFO, msg_move_retry)"
  using assms
proof (induction fails arbitrary: ri p e cmds)
  case Nil
  let ?e1 = "e\<lparr>move_to_srv := rest\<rparr>"
  let ?e1' = "ros_log_append INFO msg_move_retry ?e1"
  from Nil.prems have srv: "move_to_srv e = r # rest" by simp
  from moveTo_fails [OF srv \<open>r \<noteq> Some True\<close>] obtain ok ri' where
    d: "moveTo ri target_view e = Inr (ok, ri', ?e1)" and failed: "\<not> ok \<or> ri' \<noteq> Some True"
    by blast
  have "command_queue ?e1' = Some ''ABORT_LOOP'' # q"
    using Nil.prems by (simp add: ros_log_append_def)
  from spinOnce_abort [OF this]
  have s: "spinOnce (p, ?e1') = Inr (p\<lparr>abort_loop := True\<rparr>, ?e1'\<lparr>command_queue := q\<rparr>)" .
  have "moveToAndWait_loop target_view ri (p, e) = Inr (p\<lparr>abort_loop := True\<rparr>, ?e1'\<lparr>command_queue := q\<rparr>)"
    using d failed s by (subst moveToAndWait_loop.simps) auto
  then show ?case
    by (simp add: ros_log_append_def flags_only_def)
next
  case (Cons r0 fs)
  from Cons.prems obtain c cs where cmds: "cmds = c # cs"
    by (cases cmds) auto
  from Cons.prems have r0: "r0 \<noteq> Some True" and srv: "move_to_srv e = r0 # (fs @ r # rest)"
    by auto
  let ?e1 = "e\<lparr>move_to_srv := fs @ r # rest\<rparr>"
  let ?e1' = "ros_log_append INFO msg_move_retry ?e1"
  from moveTo_fails [OF srv r0] obtain ok ri' where
    d: "moveTo ri target_view e = Inr (ok, ri', ?e1)" and failed: "\<not> ok \<or> ri' \<noteq> Some True"
    by blast
  have q1: "command_queue ?e1' = c # (cs @ Some ''ABORT_LOOP'' # q)"
    using Cons.prems cmds by (simp add: ros_log_append_def)
  have c: "c \<noteq> Some ''ABORT_LOOP''" using Cons.prems cmds by auto
  from spinOnce_no_abort [OF q1 c \<open>recorder_ok p\<close>] obtain p2 e2 where
    s: "spinOnce (p, ?e1') = Inr (p2, e2)" and f2: "flags_only p p2"
    and a2: "abort_loop p2 = abort_loop p" and q2: "command_queue e2 = cs @ Some ''ABORT_LOOP'' # q"
    and d2: "move_to_srv e2 = move_to_srv ?e1'" and m2: "retrieve_data_srv e2 = retrieve_data_srv ?e1'"
    and l2: "ros_log e2 = ros_log ?e1'"
    by blast
  have "\<exists>p' e'. moveToAndWait_loop target_view ri' (p2, e2) = Inr (p', e') \<and>
           move_to_srv e' = rest \<and> command_queue e' = q \<and> retrieve_data_srv e' = retrieve_data_srv e2 \<and>
           abort_loop p' \<and> flags_only p2 p' \<and>
           ros_log e' = ros_log e2 @ replicate (Suc (length fs)) (INFO, msg_move_retry)"
  proof (rule Cons.IH)
    show "\<forall>r\<in>set fs. r \<noteq> Some True" using Cons.prems by simp
    show "r \<noteq> Some True" by (rule Cons.prems)
    show "move_to_srv e2 = fs @ r # rest" using d2 by (simp add: ros_log_append_def)
    show "command_queue e2 = cs @ Some ''ABORT_LOOP'' # q" by (rule q2)
    show "length cs = length fs" using Cons.prems cmds by simp
    show "Some ''ABORT_LOOP'' \<notin> set cs" using Cons.prems cmds by simp
    show "\<not> abort_loop p2" using a2 Cons.prems by simp
    show "recorder_ok p2" using f2 Cons.prems by (blast intro: flags_only_recorder_ok)
  qed
  then obtain p' e' where rec: "moveToAndWait_loop target_view ri' (p2, e2) = Inr (p', e')"
    and res: "move_to_srv e' = rest" "command_queue e' = q" "retrieve_data_srv e' = retrieve_data_srv e2"
      "abort_loop p'" "flags_only p2 p'"
      "ros_log e' = ros_log e2 @ replicate (Suc (length fs)) (INFO, msg_move_retry)"
    by blast
  have "moveToAndWait_loop target_view ri (p, e) = Inr (p', e')"
    using d failed s rec a2 Cons.prems(7)
    by (subst moveToAndWait_loop.simps) auto
  moreover have "ros_log e' = ros_log e @ replicate (Suc (length (r0 # fs))) (INFO, msg_move_retry)"
    using res l2 by (simp add: ros_log_append_def replicate_append_same)
  moreover have "retrieve_data_srv e' = retrieve_data_srv e" using res m2 by (simp add: ros_log_append_def)
  ultimately show ?case
    using res f2 by (blast intro: flags_only_trans)
qed

lemma moveToAndWait_success:
  assumes "\<forall>r\<in>set fails. r \<noteq> Some True"
    and "move_to_srv e = fails @ Some True # rest"
    and "command_queue e = cmds @ q" "length cmds = length fails"
    and "Some ''ABORT_LOOP'' \<notin> set cmds" "\<not> abort_loop p" "recorder_ok p"
  shows "\<exists>p' e'. moveToAndWait target_view (p, e) = Inr (p', e') \<and>
           move_to_srv e' = rest \<and> command_queue e' = q \<and> \<not> abort_loop p' \<and>
           ros_log e' = ros_log e @ replicate (length fails) (INFO, msg_move_retry) @
             [(INFO, msg_move_success)]"
proof -
  from moveToAndWait_loop_success [OF assms, of target_view None] obtain p' e' where
    "moveToAndWait_loop target_view None (p, e) = Inr (p', e')" "move_to_srv e' = rest"
    "command_queue e' = q" "\<not> abort_loop p'"
    "ros_log e' = ros_log e @ replicate (length fails) (INFO, msg_move_retry)"
    by blast
  then show ?thesis
    by (simp add: moveToAndWait_def ros_log_append_def)
qed

lemma moveToAndWait_abort:
  assumes "\<forall>r\<in>set fails. r \<noteq> Some True" "r \<noteq> Some True"
    and "move_to_srv e = fails @ r # rest"
    and "command_queue e = cmds @ Some ''ABORT_LOOP'' # q" "length cmds = length fails"
    and "Some ''ABORT_LOOP'' \<notin> set cmds" "\<not> abort_loop p" "recorder_ok p"
  shows "\<exists>p' e'. moveToAndWait target_view (p, e) = Inr (p', e') \<and>
           move_to_srv e' = rest \<and> command_queue e' = q \<and> \<not> abort_loop p' \<and>
           ros_log e' = ros_log e @ replicate (Suc (length fails)) (INFO, msg_move_retry) @
             [(INFO, msg_move_abort)]"
proof -
  from moveToAndWait_loop_abort [OF assms, of target_view None] obtain p' e' where
    "moveToAndWait_loop target_view None (p, e) = Inr (p', e')" "move_to_srv e' = rest"
    "command_queue e' = q" "abort_loop p'"
    "ros_log e' = ros_log e @ replicate (Suc (length fails)) (INFO, msg_move_retry)"
    by blast
  then show ?thesis
    by (simp add: moveToAndWait_def ros_log_append_def)
qed

lemma example_planner_ok: "recorder_ok example_planner \<and> \<not> abort_loop example_planner"
  by (simp add: recorder_ok_def example_planner_def ViewPlanner_new_def)

text \<open>
  Claim C3. Let the wrapped operation fail (the service call fails, or its result is not
  the accepted one) on its first \<open>N\<close> invocations. If invocation \<open>N + 1\<close> succeeds and
  no ABORT\_LOOP arrives in the \<open>N\<close> spins in between, \<^verbatim>\<open>retrieveDataAndWait\<close> and
  \<^verbatim>\<open>moveToAndWait\<close> return after exactly \<open>N + 1\<close> invocations, having logged \<open>N\<close>
  retries and then the success. If ABORT\_LOOP arrives in the spin after a failed
  invocation, the helper returns after that invocation without a further one, having
  logged the abort, and \<open>abort_loop\<close> is false on exit. The spins may deliver any other
  command.
\<close>

theorem retry_helpers:
  "((\<forall>r\<in>set data_fails. r \<noteq> Some RECEIVED) \<and>
    retrieve_data_srv e = data_fails @ Some RECEIVED # data_rest \<and>
    command_queue e = cmds @ q \<and> length cmds = length data_fails \<and>
    Some ''ABORT_LOOP'' \<notin> set cmds \<and> \<not> abort_loop p \<and> recorder_ok p \<longrightarrow>
    (\<exists>p' e'. retrieveDataAndWait (p, e) = Inr (p', e') \<and>
       retrieve_data_srv e' = data_rest \<and> command_queue e' = q \<and> \<not> abort_loop p' \<and>
       ros_log e' = ros_log e @ replicate (length data_fails) (INFO, msg_retrieve_retry) @
         [(INFO, msg_retrieve_success)])) \<and>
   ((\<forall>r\<in>set data_fails. r \<noteq> Some RECEIVED) \<and> data_fail \<noteq> Some RECEIVED \<and>
    retrieve_data_srv e = data_fails @ data_fail # data_rest \<and>
    command_queue e = cmds @ Some ''ABORT_LOOP'' # q \<and> length cmds = length data_fails \<and>
    Some ''ABORT_LOOP'' \<notin> set cmds \<and> \<not> abort_loop p \<and> recorder_ok p \<longrightarrow>
    (\<exists>p' e'. retrieveDataAndWait (p, e) = Inr (p', e') \<and>
       retrieve_data_srv e' = data_rest \<and> command_queue e' = q \<and> \<not> abort_loop p' \<and>
       ros_log e' = ros_log e @ replicate (Suc (length data_fails)) (INFO, msg_retrieve_retry) @
         [(INFO, msg_retrieve_abort)])) \<and>
   ((\<forall>r\<in>set move_fails. r \<noteq> Some True) \<and>
    move_to_srv e = move_fails @ Some True # move_rest \<and>
    command_queue e = cmds @ q \<and> length cmds = length move_fails \<and>
    Some ''ABORT_LOOP'' \<notin> set cmds \<and> \<not> abort_loop p \<and> recorder_ok p \<longrightarrow>
    (\<exists>p' e'. moveToAndWait target_view (p, e) = Inr (p', e') \<and>
       move_to_srv e' = move_rest \<and> command_queue e' = q \<and> \<not> abort_loop p' \<and>
       ros_log e' = ros_log e @ replicate (length move_fails) (INFO, msg_move_retry) @
         [(INFO, msg_move_success)])) \<and>
   ((\<forall>r\<in>set move_fails. r \<noteq> Some True) \<and> move_fail \<noteq> Some True \<and>
    move_to_srv e = move_fails @ move_fail # move_rest \<and>
    command_queue e = cmds @ Some ''ABORT_LOOP'' # q \<and> length cmds = length move_fails \<and>
    Some ''ABORT_LOOP'' \<notin> set cmds \<and> \<not> abort_loop p \<and> recorder_ok p \<longrightarrow>
    (\<exists>p' e'. moveToAndWait target_view (p, e) = Inr (p', e') \<and>
       move_to_srv e' = move_rest \<and> command_queue e' = q \<and> \<not> abort_loop p' \<and>
       ros_log e' = ros_log e @ replicate (Suc (length move_fails)) (INFO, msg_move_retry) @
         [(INFO, msg_move_abort)]))"
proof (intro conjI impI)
  assume "(\<forall>r\<in>set data_fails. r \<noteq> Some RECEIVED) \<and>
    retrieve_data_srv e = data_fails @ Some RECEIVED # data_rest \<and>
    command_queue e = cmds @ q \<and> length cmds = length data_fails \<and>
    Some ''ABORT_LOOP'' \<notin> set cmds \<and> \<not> abort_loop p \<and> recorder_ok p"
  then show "\<exists>p' e'. retrieveDataAndWait (p, e) = Inr (p', e') \<and>
       retrieve_data_srv e' = data_rest \<and> command_queue e' = q \<and> \<not> abort_loop p' \<and>
       ros_log e' = ros_log e @ replicate (length data_fails) (INFO, msg_retrieve_retry) @
         [(INFO, msg_retrieve_success)]"
    using retrieveDataAndWait_success [of data_fails e data_rest cmds q p] by blast
next
  assume "(\<forall>r\<in>set data_fails. r \<noteq> Some RECEIVED) \<and> data_fail \<noteq> Some RECEIVED \<and>
    retrieve_data_srv e = data_fails @ data_fail # data_rest \<and>
    command_queue e = cmds @ Some ''ABORT_LOOP'' # q \<and> length cmds = length data_fails \<and>
    Some ''ABORT_LOOP'' \<notin> set cmds \<and> \<not> abort_loop p \<and> recorder_ok p"
  then show "\<exists>p' e'. retrieveDataAndWait (p, e) = Inr (p', e') \<and>
       retrieve_data_srv e' = data_rest \<and> command_queue e' = q \<and> \<not> abort_loop p' \<and>
       ros_log e' = ros_log e @ replicate (Suc (length data_fails)) (INFO, msg_retrieve_retry) @
         [(INFO, msg_retrieve_abort)]"
    using retrieveDataAndWait_abort [of data_fails data_fail e data_rest cmds q p] by blast
next
  assume "(\<forall>r\<in>set move_fails. r \<noteq> Some True) \<and>
    move_to_srv e = move_fails @ Some True # move_rest \<and>
    command_queue e = cmds @ q \<and> length cmds = length move_fails \<and>
    Some ''ABORT_LOOP'' \<notin> set cmds \<and> \<not> abort_loop p \<and> recorder_ok p"
  then show "\<exists>p' e'. moveToAndWait target_view (p, e) = Inr (p', e') \<and>
       move_to_srv e' = move_rest \<and> command_queue e' = q \<and> \<not> abort_loop p' \<and>
       ros_log e' = ros_log e @ replicate (length move_fails) (INFO, msg_move_retry) @
         [(INFO, msg_move_success)]"
    using moveToAndWait_success [of move_fails e move_rest cmds q p target_view] by blast
next
  assume "(\<forall>r\<in>set move_fails. r \<noteq> Some True) \<and> move_fail \<noteq> Some True \<and>
    move_to_srv e = move_fails @ move_fail # move_rest \<and>
    command_queue e = cmds @ Some ''ABORT_LOOP'' # q \<and> length cmds = length move_fails \<and>
    Some ''ABORT_LOOP'' \<notin> set cmds \<and> \<not> abort_loop p \<and> recorder_ok p"
  then show "\<exists>p' e'. moveToAndWait target_view (p, e) = Inr (p', e') \<and>
       move_to_srv e' = move_rest \<and> command_queue e' = q \<and> \<not> abort_loop p' \<and>
       ros_log e' = ros_log e @ replicate (Suc (length move_fails)) (INFO, msg_move_retry) @
         [(INFO, msg_move_abort)]"
    using moveToAndWait_abort [of move_fails move_fail e move_rest cmds q p target_view] by blast
qed

theorem retry_helpers_witness:
  "(\<exists>p' e'. retrieveDataAndWait (example_planner, retry_env) = Inr (p', e') \<and>
      retrieve_data_srv e' = [None] \<and> command_queue e' = [Some ''PAUSE''] \<and> \<not> abort_loop p' \<and>
      ros_log e' = [(INFO, msg_retrieve_retry), (INFO, msg_retrieve_retry), (INFO, msg_retrieve_success)]) \<and>
   (\<exists>p' e'. retrieveDataAndWait (example_planner, abort_env) = Inr (p', e') \<and>
      retrieve_data_srv e' = [Some RECEIVED] \<and> command_queue e' = [Some ''START''] \<and> \<not> abort_loop p' \<and>
      ros_log e' = [(INFO, msg_retrieve_retry), (INFO, msg_retrieve_retry), (INFO, msg_retrieve_abort)]) \<and>
   (\<exists>p' e'. moveToAndWait (view_at 1 1) (example_planner, retry_env) = Inr (p', e') \<and>
      move_to_srv e' = [] \<and> command_queue e' = [Some ''PAUSE''] \<and> \<not> abort_loop p' \<and>
      ros_log e' = [(INFO, msg_move_retry), (INFO, msg_move_retry), (INFO, msg_move_success)]) \<and>
   (\<exists>p' e'. moveToAndWait (view_at 1 1) (example_planner, abort_env) = Inr (p', e') \<and>
      move_to_srv e' = [Some True] \<and> command_queue e' = [Some ''START''] \<and> \<not> abort_loop p' \<and>
      ros_log e' = [(INFO, msg_move_retry), (INFO, msg_move_retry), (INFO, msg_move_abort)])"
  using
    retry_helpers [where p = example_planner and e = retry_env
      and data_fails = "[None, Some NOT_RECEIVED]" and data_rest = "[None]"
      and move_fails = "[Some False, None]" and move_rest = "[]"
      and cmds = "[Some ''PRINT_DATA'', None]" and q = "[Some ''PAUSE'']"
      and target_view = "view_at 1 1"]
    retry_helpers [where p = example_planner and e = abort_env
      and data_fails = "[None]" and data_fail = None and data_rest = "[Some RECEIVED]"
      and move_fails = "[None]" and move_fail = "Some False" and move_rest = "[Some True]"
      and cmds = "[None]" and q = "[Some ''START'']"
      and target_view = "view_at 1 1"]
    example_planner_ok
  by (simp add: retry_env_def abort_env_def quiet_env_def numeral_2_eq_2)

subsection \<open>The command handler\<close>

text \<open>
  Claim C8. The effect of \<^verbatim>\<open>commandCallback\<close> on a token is exactly: START sets
  \<open>start\<close>, clears \<open>pause\<close> and \<open>stop_and_print\<close>; PAUSE sets \<open>pause\<close>, clears the
  other two; STOP\_AND\_PRINT sets \<open>stop_and_print\<close>, clears the other two; REINIT sets
  only \<open>reinit\<close>; ABORT\_LOOP sets only \<open>abort_loop\<close>; PRINT\_DATA changes no member and
  writes the recorded table to a file at once (the recorder holds a name and no empty
  row from the constructor on; without them the write is undefined); any other token
  changes nothing.
\<close>

theorem commandCallback_effects:
  "commandCallback ''START'' (p, e) =
     Inr (p\<lparr>start := True, pause := False, stop_and_print := False\<rparr>, e) \<and>
   commandCallback ''PAUSE'' (p, e) =
     Inr (p\<lparr>start := False, pause := True, stop_and_print := False\<rparr>, e) \<and>
   commandCallback ''STOP_AND_PRINT'' (p, e) =
     Inr (p\<lparr>start := False, pause := False, stop_and_print := True\<rparr>, e) \<and>
   commandCallback ''REINIT'' (p, e) = Inr (p\<lparr>reinit := True\<rparr>, e) \<and>
   commandCallback ''ABORT_LOOP'' (p, e) = Inr (p\<lparr>abort_loop := True\<rparr>, e) \<and>
   commandCallback ''PRINT_DATA'' (p, e) =
     (if recorder_ok p
      then Inr (p, e\<lparr>files := files e @
                  [\<lparr>first_line = planning_data_names p, value_lines = planning_data p\<rparr>]\<rparr>)
      else Inl UndefinedBehaviour) \<and>
   (token \<notin> {''START'', ''PAUSE'', ''STOP_AND_PRINT'', ''REINIT'', ''ABORT_LOOP'', ''PRINT_DATA''} \<longrightarrow>
      commandCallback token (p, e) = Inr (p, e))"
  by (simp add: commandCallback_def saveDataToFile_def recorder_ok_def)

theorem commandCallback_effects_witness:
  "commandCallback ''PRINT_DATA'' (example_planner, quiet_env) =
     Inr (example_planner, quiet_env\<lparr>files :=
       [\<lparr>first_line = planning_data_names example_planner, value_lines = []\<rparr>]\<rparr>) \<and>
   commandCallback ''RESUME'' (example_planner, quiet_env) = Inr (example_planner, quiet_env)"
proof -
  have "planning_data example_planner = []" "recorder_ok example_planner" "files quiet_env = []"
    using example_planner_ok by (simp_all add: example_planner_def ViewPlanner_new_def quiet_env_def)
  then show ?thesis
    using commandCallback_effects [of example_planner quiet_env "''RESUME''"]
    by simp
qed

subsection \<open>Evaluating rounds on example states\<close>

lemma default_planner_fields:
  "cost_weight default_planner = 1"
  "information_weights default_planner = [0, 0, 0, 0, 0, 0, 0, 0, 0]"
  "view_space default_planner = [(view_at 1 1, Good), (view_at 2 2, Good)]"
  "pause default_planner = False"
  "current_view default_planner = view_at 0 0"
  "planning_data default_planner = []"
  by (simp_all add: default_planner_def ViewPlanner_new_def metrics_to_use_def)

lemma example_planner_fields:
  "cost_weight example_planner = 1"
  "information_weights example_planner = [2, 0, 0, 0, 0, 0, 0, 0, 0]"
  "view_space example_planner = [(view_at 1 1, Good), (view_at 2 2, Good)]"
  "pause example_planner = False"
  "abort_loop example_planner = False"
  "current_view example_planner = view_at 0 0"
  "planning_data example_planner = []"
  by (simp_all add: example_planner_def ViewPlanner_new_def metrics_to_use_def)

lemma one_view_planner_fields:
  "cost_weight one_view_planner = 1"
  "information_weights one_view_planner = [2, 0, 0, 0, 0, 0, 0, 0, 0]"
  "view_space one_view_planner = [(view_at 1 1, Good)]"
  "pause one_view_planner = False"
  "abort_loop one_view_planner = False"
  "current_view one_view_planner = view_at 0 0"
  "planning_data one_view_planner = []"
  by (simp_all add: one_view_planner_def example_planner_fields)

lemmas eval_loops =
  cost_loop.simps information_loop.simps view_returns_loop.simps calculateReturn_loop.simps
  nbv_scan_from.simps

lemmas eval_defs =
  round_evaluate_def round_candidates_def pauseIfRequested_def determineAvailableViewSpace_def
  getGoodViewSpace_def getView_def movementCost_def getViewInformation_def
  calculateReturn_def ros_log_append_def setBad_def

lemma default_round_evaluate:
  "round_evaluate (default_planner, two_candidates_env) =
     Inr ([0, 1], [1, 2], [[5, 0, 0, 0, 0, 0, 0, 0, 0], [10, 0, 0, 0, 0, 0, 0, 0, 0]], [-1, -2],
          default_planner,
          two_candidates_env\<lparr>movement_cost_srv := [], information_srv := [],
            movement_cost_requests := [(view_at 0 0, view_at 1 1), (view_at 0 0, view_at 2 2)],
            ros_log := [(INFO, msg_retrieve_costs), (INFO, msg_retrieve_information),
                        (INFO, msg_calculating)]\<rparr>)"
  by (simp add: eval_defs eval_loops default_planner_fields two_candidates_env_def quiet_env_def)

lemma example_round_evaluate:
  "round_evaluate (example_planner, two_candidates_env) =
     Inr ([0, 1], [1, 2], [[5, 0, 0, 0, 0, 0, 0, 0, 0], [10, 0, 0, 0, 0, 0, 0, 0, 0]], [9, 18],
          example_planner,
          two_candidates_env\<lparr>movement_cost_srv := [], information_srv := [],
            movement_cost_requests := [(view_at 0 0, view_at 1 1), (view_at 0 0, view_at 2 2)],
            ros_log := [(INFO, msg_retrieve_costs), (INFO, msg_retrieve_information),
                        (INFO, msg_calculating)]\<rparr>)"
  by (simp add: eval_defs eval_loops example_planner_fields two_candidates_env_def quiet_env_def)

lemma one_view_round_evaluate:
  "round_evaluate (one_view_planner, one_candidate_env) =
     Inr ([0], [1], [[5, 0, 0, 0, 0, 0, 0, 0, 0]], [9],
          one_view_planner,
          one_candidate_env\<lparr>movement_cost_srv := [], information_srv := [],
            movement_cost_requests := [(view_at 0 0, view_at 1 1)],
            ros_log := [(INFO, msg_retrieve_costs), (INFO, msg_retrieve_information),
                        (INFO, msg_calculating)]\<rparr>)"
  by (simp add: eval_defs eval_loops one_view_planner_fields one_candidate_env_def quiet_env_def)

text \<open>
  Claim C1 says that in every round with a cost-viable candidate the scan selects the
  lowest index of the maximum return among the viable candidates. The scan starts
  \<^verbatim>\<open>highest_return\<close> at 0 and assigns \<^verbatim>\<open>nbv_index\<close> only on a return above it.
  With every parameter at its default (cost weight 1, all metric weights 0) and two
  reachable candidates of costs 1 and 2, both candidates are viable, their returns are
  \<open>-1\<close> and \<open>-2\<close>, the scan assigns no index, and the round goes on to read the
  uninitialised \<^verbatim>\<open>nbv_index\<close>.
\<close>

theorem nbv_scan_never_assigns:
  "round_evaluate (default_planner, two_candidates_env) =
     Inr ([0, 1], [1, 2], [[5, 0, 0, 0, 0, 0, 0, 0, 0], [10, 0, 0, 0, 0, 0, 0, 0, 0]], [-1, -2],
          default_planner,
          two_candidates_env\<lparr>movement_cost_srv := [], information_srv := [],
            movement_cost_requests := [(view_at 0 0, view_at 1 1), (view_at 0 0, view_at 2 2)],
            ros_log := [(INFO, msg_retrieve_costs), (INFO, msg_retrieve_information),
                        (INFO, msg_calculating)]\<rparr>) \<and>
   nbv_index (nbv_scan [0, 1] [1, 2] [-1, -2]) = None \<and>
   loop_body std_error (default_planner, two_candidates_env) = Inl UndefinedBehaviour"
  by (simp add: default_round_evaluate loop_body_def Let_def nbv_scan_def nbv_scan_from.simps
      nbv_scan_step_def nbv_scan_init_def)

subsection \<open>The row of a round\<close>

lemma saveNBVData_plain:
  "nbv < length (view_space p) \<Longrightarrow>
   saveNBVData nbv info c information_gain None None p =
     Inr (p\<lparr>planning_data := planning_data p @
       [[position_x (pose (fst (view_space p ! nbv))), position_y (pose (fst (view_space p ! nbv))),
         position_z (pose (fst (view_space p ! nbv))), orientation_x (pose (fst (view_space p ! nbv))),
         orientation_y (pose (fst (view_space p ! nbv))), orientation_z (pose (fst (view_space p ! nbv))),
         orientation_w (pose (fst (view_space p ! nbv))),
         return_value info, winning_margin info, return_value_mean info, return_value_stddev info, c]
        @ information_gain]\<rparr>)"
  by (simp add: saveNBVData_def getView_def)

lemma saveNBVData_margin:
  assumes "saveNBVData nbv info c information_gain None None p = Inr p'"
  shows "last (planning_data p') ! 8 = winning_margin info"
proof -
  from assms have "nbv < length (view_space p)"
    by (auto simp: saveNBVData_def getView_def and_then_Inr_iff split: if_splits)
  from saveNBVData_plain [OF this] assms show ?thesis
    by auto
qed

lemmas eval_scan = nbv_scan_def nbv_scan_from.simps nbv_scan_step_def nbv_scan_init_def

subsection \<open>Movement costs\<close>

text \<open>
  One pass of the cost loop: one request, and the candidate's fate read from
  \<^verbatim>\<open>cost_description\<close>, which holds the response when the call succeeded and is
  left as default-constructed when it failed.
\<close>

lemma cost_loop_step:
  assumes "i < length costs" "views_to_consider ! i < length (view_space p)"
    and "movement_cost_srv e = r # rest"
  shows "cost_loop views_to_consider i costs (p, e) =
     (let cost_description = (case r of None \<Rightarrow> uninit_movement_cost e | Some m \<Rightarrow> m);
          e' = e\<lparr>movement_cost_srv := rest,
                  movement_cost_requests := movement_cost_requests e @
                    [(current_view p, fst (view_space p ! (views_to_consider ! i)))]\<rparr>
      in if exception cost_description \<noteq> NONE
         then cost_loop views_to_consider (Suc i) (costs[i := -1])
                (p\<lparr>view_space := setBad (view_space p) (views_to_consider ! i)\<rparr>, e')
         else cost_loop views_to_consider (Suc i) (costs[i := cost cost_description]) (p, e'))"
  using assms
  by (subst cost_loop.simps) (simp add: getView_def movementCost_def Let_def split: option.splits)

text \<open>
  Claim C4 says that a candidate whose single cost evaluation fails at the service
  level is marked bad and given the cost \<open>-1\<close>, as one whose evaluation reports an
  exception is. The loop ignores what \<^verbatim>\<open>movementCost\<close> returns and reads the
  exception of \<^verbatim>\<open>cost_description\<close>, which a failed call leaves as
  default-constructed. Where that holds the tag \<open>NONE\<close> and the cost 0, the first
  candidate below, whose call fails, stays good with cost 0, has its information
  retrieved and gets the return \<open>2 * 5 = 10\<close>; the second, whose call reports
  \<open>UNREACHABLE\<close>, is marked bad with cost \<open>-1\<close>. Each candidate is asked for once.
\<close>

theorem cost_service_failure_not_marked:
  "uninit_movement_cost cost_failure_env = \<lparr>cost = 0, exception = NONE\<rparr> \<and>
   movement_cost_srv cost_failure_env = [None, Some \<lparr>cost = 2, exception = UNREACHABLE\<rparr>] \<and>
   round_evaluate (example_planner, cost_failure_env) =
     Inr ([0, 1], [0, -1], [[5, 0, 0, 0, 0, 0, 0, 0, 0], []], [10, 0],
          example_planner\<lparr>view_space := [(view_at 1 1, Good), (view_at 2 2, Bad)]\<rparr>,
          cost_failure_env\<lparr>movement_cost_srv := [], information_srv := [],
            movement_cost_requests := [(view_at 0 0, view_at 1 1), (view_at 0 0, view_at 2 2)],
            ros_log := [(INFO, msg_retrieve_costs), (INFO, msg_retrieve_information),
                        (INFO, msg_calculating)]\<rparr>)"
  by (simp add: eval_defs eval_loops example_planner_fields cost_failure_env_def quiet_env_def)

subsection \<open>Bad views\<close>

lemma flags_only_bad_views: "flags_only p p' \<Longrightarrow> bad_views p' = bad_views p"
  by (simp add: flags_only_def bad_views_def)

lemma bad_views_setBad:
  "bad_views (p\<lparr>view_space := setBad (view_space p) v\<rparr>) =
     (if v < length (view_space p) then insert v (bad_views p) else bad_views p)"
  by (auto simp: bad_views_def setBad_def nth_list_update)

lemma length_setBad [simp]: "length (setBad vs v) = length vs"
  by (simp add: setBad_def)

lemma cost_loop_bad_views:
  "cost_loop views_to_consider i costs pe = Inr (costs', pe') \<Longrightarrow>
   bad_views (fst pe) \<subseteq> bad_views (fst pe') \<and>
   length (view_space (fst pe')) = length (view_space (fst pe)) \<and>
   length costs' = length costs"
proof (induction views_to_consider i costs pe arbitrary: costs' pe' rule: cost_loop.induct)
  case (1 views_to_consider i costs pe)
  show ?case
  proof (cases "i < length costs")
    case False
    with "1.prems" show ?thesis
      by (subst (asm) cost_loop.simps) auto
  next
    case True
    let ?p = "fst pe"
    from "1.prems" True obtain target response cost_description e1 where
      g: "getView (view_space ?p) (views_to_consider ! i) = Inr target"
      and m: "movementCost (uninit_movement_cost (snd pe)) (current_view ?p) target (snd pe) =
                Inr (response, cost_description, e1)"
      and r: "(if exception cost_description \<noteq> NONE
               then cost_loop views_to_consider (Suc i) (costs[i := -1])
                      (?p\<lparr>view_space := setBad (view_space ?p) (views_to_consider ! i)\<rparr>, e1)
               else cost_loop views_to_consider (Suc i) (costs[i := cost cost_description]) (?p, e1))
              = Inr (costs', pe')"
      by (subst (asm) cost_loop.simps) (auto simp: and_then_Inr_iff)
    show ?thesis
    proof (cases "exception cost_description \<noteq> NONE")
      case exc: True
      with r have "cost_loop views_to_consider (Suc i) (costs[i := -1])
          (?p\<lparr>view_space := setBad (view_space ?p) (views_to_consider ! i)\<rparr>, e1) = Inr (costs', pe')"
        by simp
      from "1.IH"(1) [OF True g m refl refl exc this]
      show ?thesis by (auto simp: bad_views_setBad split: if_splits)
    next
      case noexc: False
      with r have "cost_loop views_to_consider (Suc i) (costs[i := cost cost_description]) (?p, e1)
          = Inr (costs', pe')"
        by simp
      from "1.IH"(2) [OF True g m refl refl noexc this]
      show ?thesis by simp
    qed
  qed
qed

lemma cost_loop_Inr_pre:
  assumes "cost_loop views_to_consider i costs (p, e) = Inr x" "i < length costs"
  shows "views_to_consider ! i < length (view_space p) \<and> (\<exists>r rest. movement_cost_srv e = r # rest)"
  using assms
  by (subst (asm) cost_loop.simps)
    (auto simp: getView_def movementCost_def and_then_def split: if_splits list.splits sum.splits)

lemma moveToAndWait_loop_flags_only:
  "moveToAndWait_loop target_view ri pe = Inr pe' \<Longrightarrow> flags_only (fst pe) (fst pe')"
proof (induction target_view ri pe arbitrary: pe' rule: moveToAndWait_loop.induct)
  case (1 target_view ri pe)
  from "1.prems" obtain ok ri' e1 where d: "moveTo ri target_view (snd pe) = Inr (ok, ri', e1)"
    and r: "(if \<not> ok \<or> ri' \<noteq> Some True
             then and_then (spinOnce (fst pe, ros_log_append INFO msg_move_retry e1)) (\<lambda>pe2.
                    if \<not> abort_loop (fst pe2) then moveToAndWait_loop target_view ri' pe2 else Inr pe2)
             else Inr (fst pe, e1)) = Inr pe'"
    by (subst (asm) moveToAndWait_loop.simps) (auto simp: and_then_Inr_iff)
  show ?case
  proof (cases "\<not> ok \<or> ri' \<noteq> Some True")
    case failed: True
    with r obtain pe2 where s: "spinOnce (fst pe, ros_log_append INFO msg_move_retry e1) = Inr pe2"
      and r2: "(if \<not> abort_loop (fst pe2) then moveToAndWait_loop target_view ri' pe2 else Inr pe2) = Inr pe'"
      by (auto simp: and_then_Inr_iff)
    have f1: "flags_only (fst pe) (fst pe2)"
      using s spinOnce_flags_only [of "fst pe" _ "fst pe2" "snd pe2"] by simp
    show ?thesis
    proof (cases "abort_loop (fst pe2)")
      case True
      with r2 f1 show ?thesis by simp
    next
      case False
      with r2 have "moveToAndWait_loop target_view ri' pe2 = Inr pe'" by simp
      from "1.IH" [OF d refl refl failed s False this] f1 show ?thesis
        by (blast intro: flags_only_trans)
    qed
  next
    case False
    with r show ?thesis by auto
  qed
qed

lemma retrieveDataAndWait_flags_only:
  "retrieveDataAndWait pe = Inr pe' \<Longrightarrow> flags_only (fst pe) (fst pe')"
  by (auto simp: retrieveDataAndWait_def and_then_Inr_iff flags_only_def split: if_splits
      dest!: retrieveDataAndWait_loop_flags_only)

lemma moveToAndWait_flags_only:
  "moveToAndWait target_view pe = Inr pe' \<Longrightarrow> flags_only (fst pe) (fst pe')"
  by (auto simp: moveToAndWait_def and_then_Inr_iff flags_only_def split: if_splits
      dest!: moveToAndWait_loop_flags_only)

lemma spinOnce_flags_only':
  "spinOnce pe = Inr pe' \<Longrightarrow> flags_only (fst pe) (fst pe')"
  using spinOnce_flags_only [of "fst pe" "snd pe" "fst pe'" "snd pe'"] by simp

lemma pauseIfRequested_flags_only':
  "pauseIfRequested pe = Inr pe' \<Longrightarrow> flags_only (fst pe) (fst pe')"
  using pauseIfRequested_flags_only [of "fst pe" "snd pe" "fst pe'" "snd pe'"] by simp

lemma saveNBVData_plain_Inr:
  assumes "saveNBVData nbv info c information_gain None None p = Inr p'"
  shows "nbv < length (view_space p) \<and>
    p' = p\<lparr>planning_data := planning_data p @
       [[position_x (pose (fst (view_space p ! nbv))), position_y (pose (fst (view_space p ! nbv))),
         position_z (pose (fst (view_space p ! nbv))), orientation_x (pose (fst (view_space p ! nbv))),
         orientation_y (pose (fst (view_space p ! nbv))), orientation_z (pose (fst (view_space p ! nbv))),
         orientation_w (pose (fst (view_space p ! nbv))),
         return_value info, winning_margin info, return_value_mean info, return_value_stddev info, c]
        @ information_gain]\<rparr>"
proof -
  from assms have "nbv < length (view_space p)"
    by (auto simp: saveNBVData_def getView_def and_then_Inr_iff split: if_splits)
  with saveNBVData_plain [OF this] assms show ?thesis by simp
qed

lemma case_prod_Inr_iff:
  "(case x of (a, b) \<Rightarrow> Inr (F a b)) = Inr y \<longleftrightarrow> (\<exists>a b. x = (a, b) \<and> F a b = y)"
  by (cases x) auto

lemma round_evaluate_Inr:
  assumes "round_evaluate pe = Inr (views_to_consider, costs, information, view_returns, p4, e5)"
  obtains p e pe1 p2 e2 e3 e4 where
    "round_candidates pe = Inr (views_to_consider, p, e)"
    "cost_loop views_to_consider 0 (replicate (length views_to_consider) 0)
       (p, ros_log_append INFO msg_retrieve_costs e) = Inr (costs, pe1)"
    "pauseIfRequested pe1 = Inr (p2, e2)"
    "information_loop views_to_consider costs 0 (replicate (length views_to_consider) [])
       (p2, ros_log_append INFO msg_retrieve_information e2) = Inr (information, e3)"
    "pauseIfRequested (p2, e3) = Inr (p4, e4)"
    "view_returns_loop p4 costs information 0 (replicate (length views_to_consider) 0)
       (ros_log_append INFO msg_calculating e4) = (view_returns, e5)"
  using assms
  by (auto simp: round_evaluate_def and_then_Inr_iff case_prod_Inr_iff)

lemma round_candidates_Inr:
  assumes "round_candidates pe = Inr (views_to_consider, p, e)"
  shows "pauseIfRequested pe = Inr (p, e)" "views_to_consider = determineAvailableViewSpace p"
    "flags_only (fst pe) p"
  using assms pauseIfRequested_flags_only' [of pe "(p, e)"]
  by (auto simp: round_candidates_def and_then_Inr_iff)

lemma loop_body_Inr:
  assumes "loop_body std_error pe = Inr (left, pe')"
  obtains views_to_consider costs information view_returns p4 e5 nbv p5 where
    "round_evaluate pe = Inr (views_to_consider, costs, information, view_returns, p4, e5)"
    "nbv_index (nbv_scan views_to_consider costs view_returns) = Some nbv"
    "saveNBVData nbv (make_return_info std_error (nbv_scan views_to_consider costs view_returns) view_returns)
       (costs ! nbv) (information ! nbv) None None p4 = Inr p5"
    "flags_only p5 (fst pe')"
proof -
  from assms obtain views_to_consider costs information view_returns p4 e5 where
    ev: "round_evaluate pe = Inr (views_to_consider, costs, information, view_returns, p4, e5)"
    and rest: "(let scan = nbv_scan views_to_consider costs view_returns;
           return_info = make_return_info std_error scan view_returns
       in case nbv_index scan of
            None \<Rightarrow> Inl UndefinedBehaviour
          | Some nbv \<Rightarrow>
              and_then (saveNBVData nbv return_info (costs ! nbv) (information ! nbv) None None p4)
                (\<lambda>p5.
                   if \<not> terminationCriteriaFulfilled (highest_return scan) (costs ! nbv) (information ! nbv)
                   then and_then (getView (view_space p5) nbv) (\<lambda>nbv_view.
                        and_then (moveToAndWait nbv_view (p5, e5)) (\<lambda>pe6.
                        and_then (retrieveDataAndWait pe6) (\<lambda>pe7.
                        and_then (spinOnce pe7) (\<lambda>pe8. Inr (False, pe8)))))
                   else Inr (True, p5, ros_log_append INFO msg_terminated e5))) = Inr (left, pe')"
    by (auto simp: loop_body_def and_then_Inr_iff)
  from rest obtain nbv where nbv: "nbv_index (nbv_scan views_to_consider costs view_returns) = Some nbv"
    by (cases "nbv_index (nbv_scan views_to_consider costs view_returns)") (auto simp: Let_def)
  with rest obtain p5 nbv_view pe6 pe7 where
    sv: "saveNBVData nbv (make_return_info std_error (nbv_scan views_to_consider costs view_returns) view_returns)
       (costs ! nbv) (information ! nbv) None None p4 = Inr p5"
    and mv: "moveToAndWait nbv_view (p5, e5) = Inr pe6"
    and rd: "retrieveDataAndWait pe6 = Inr pe7"
    and sp: "spinOnce pe7 = Inr pe'"
    by (auto simp: Let_def and_then_Inr_iff terminationCriteriaFulfilled_def)
  from moveToAndWait_flags_only [OF mv] retrieveDataAndWait_flags_only [OF rd] spinOnce_flags_only' [OF sp]
  have "flags_only p5 (fst pe')"
    by (auto intro: flags_only_trans)
  with ev nbv sv show thesis by (rule that)
qed

lemma round_evaluate_bad_views:
  assumes "round_evaluate pe = Inr (views_to_consider, costs, information, view_returns, p4, e5)"
  shows "bad_views (fst pe) \<subseteq> bad_views p4"
proof -
  from assms obtain p e pe1 p2 e2 e3 e4 where
    rc: "round_candidates pe = Inr (views_to_consider, p, e)"
    and cl: "cost_loop views_to_consider 0 (replicate (length views_to_consider) 0)
       (p, ros_log_append INFO msg_retrieve_costs e) = Inr (costs, pe1)"
    and p1: "pauseIfRequested pe1 = Inr (p2, e2)"
    and p2: "pauseIfRequested (p2, e3) = Inr (p4, e4)"
    by (rule round_evaluate_Inr)
  from round_candidates_Inr(3) [OF rc] have "bad_views p = bad_views (fst pe)"
    by (rule flags_only_bad_views)
  moreover from cost_loop_bad_views [OF cl] have "bad_views p \<subseteq> bad_views (fst pe1)" by simp
  moreover from pauseIfRequested_flags_only' [OF p1] have "bad_views p2 = bad_views (fst pe1)"
    by (simp add: flags_only_bad_views)
  moreover from pauseIfRequested_flags_only' [OF p2] have "bad_views p4 = bad_views p2"
    by (simp add: flags_only_bad_views)
  ultimately show ?thesis by simp
qed

lemma loop_body_bad_views:
  assumes "loop_body std_error pe = Inr (left, pe')"
  shows "bad_views (fst pe) \<subseteq> bad_views (fst pe')"
proof -
  from assms obtain views_to_consider costs information view_returns p4 e5 nbv p5 where
    ev: "round_evaluate pe = Inr (views_to_consider, costs, information, view_returns, p4, e5)"
    and sv: "saveNBVData nbv (make_return_info std_error (nbv_scan views_to_consider costs view_returns) view_returns)
       (costs ! nbv) (information ! nbv) None None p4 = Inr p5"
    and fl: "flags_only p5 (fst pe')"
    by (rule loop_body_Inr)
  from saveNBVData_plain_Inr [OF sv] have "bad_views p5 = bad_views p4"
    by (auto simp: bad_views_def)
  with round_evaluate_bad_views [OF ev] flags_only_bad_views [OF fl] show ?thesis by simp
qed

lemma later_round_bad_views:
  "later_round std_error pe pe' \<Longrightarrow> bad_views (fst pe) \<subseteq> bad_views (fst pe')"
proof (induction rule: later_round.induct)
  case (next_round pe)
  show ?case by simp
next
  case (further_round pe pe1 pe2)
  from loop_body_bad_views [OF further_round.hyps(2)] further_round.IH show ?case by auto
qed

lemma round_candidates_good:
  assumes "round_candidates pe = Inr (views_to_consider, p, e)"
  shows "set views_to_consider \<inter> bad_views (fst pe) = {}"
proof -
  from round_candidates_Inr [OF assms] have
    "views_to_consider = getGoodViewSpace (view_space (fst pe))"
    by (simp add: determineAvailableViewSpace_def flags_only_def)
  then show ?thesis
    by (auto simp: getGoodViewSpace_def bad_views_def)
qed

lemma cost_loop_marks:
  "cost_loop views_to_consider i costs (p, e) = Inr (costs', pe') \<Longrightarrow>
   i \<le> j \<Longrightarrow> j < length costs \<Longrightarrow>
   exception (case movement_cost_srv e ! (j - i) of
                None \<Rightarrow> uninit_movement_cost e | Some m \<Rightarrow> m) \<noteq> NONE \<Longrightarrow>
   views_to_consider ! j \<in> bad_views (fst pe')"
proof (induction "length costs - i" arbitrary: i costs p e)
  case 0
  then show ?case by simp
next
  case (Suc n)
  from Suc.prems have lt: "i < length costs" by simp
  from cost_loop_Inr_pre [OF Suc.prems(1) lt] obtain r rest where
    rng: "views_to_consider ! i < length (view_space p)" and srv: "movement_cost_srv e = r # rest"
    by blast
  let ?cd = "case r of None \<Rightarrow> uninit_movement_cost e | Some m' \<Rightarrow> m'"
  let ?e' = "e\<lparr>movement_cost_srv := rest,
               movement_cost_requests := movement_cost_requests e @
                 [(current_view p, fst (view_space p ! (views_to_consider ! i)))]\<rparr>"
  let ?pb = "p\<lparr>view_space := setBad (view_space p) (views_to_consider ! i)\<rparr>"
  have step: "(if exception ?cd \<noteq> NONE
               then cost_loop views_to_consider (Suc i) (costs[i := -1]) (?pb, ?e')
               else cost_loop views_to_consider (Suc i) (costs[i := cost ?cd]) (p, ?e'))
              = Inr (costs', pe')"
    using Suc.prems(1) cost_loop_step [OF lt rng srv] by (simp add: Let_def)
  show ?case
  proof (cases "j = i")
    case True
    with Suc.prems srv have exc: "exception ?cd \<noteq> NONE" by simp
    with step have rec: "cost_loop views_to_consider (Suc i) (costs[i := -1]) (?pb, ?e') = Inr (costs', pe')"
      by simp
    have "views_to_consider ! i \<in> bad_views ?pb"
      using rng by (simp add: bad_views_setBad)
    with cost_loop_bad_views [OF rec] True show ?thesis by auto
  next
    case False
    with Suc.prems have j: "Suc i \<le> j" by simp
    then have idx: "exception (case movement_cost_srv ?e' ! (j - Suc i) of
                None \<Rightarrow> uninit_movement_cost ?e' | Some m \<Rightarrow> m) \<noteq> NONE"
      using Suc.prems(4) srv by (simp add: Suc_diff_le nth_Cons' cong: option.case_cong)
    show ?thesis
    proof (cases "exception ?cd \<noteq> NONE")
      case True
      with step have rec: "cost_loop views_to_consider (Suc i) (costs[i := -1]) (?pb, ?e') = Inr (costs', pe')"
        by simp
      show ?thesis
      proof (rule Suc.hyps(1) [OF _ rec j _ idx])
        show "n = length (costs[i := -1]) - Suc i" using Suc.hyps(2) by simp
        show "j < length (costs[i := -1])" using Suc.prems(3) by simp
      qed
    next
      case False
      with step have rec: "cost_loop views_to_consider (Suc i) (costs[i := cost ?cd]) (p, ?e')
          = Inr (costs', pe')"
        by simp
      show ?thesis
      proof (rule Suc.hyps(1) [OF _ rec j _ idx])
        show "n = length (costs[i := cost ?cd]) - Suc i" using Suc.hyps(2) by simp
        show "j < length (costs[i := cost ?cd])" using Suc.prems(3) by simp
      qed
    qed
  qed
qed

lemma loop_body_marks:
  assumes cand: "round_candidates pe = Inr (views_to_consider, p, e)"
    and i: "i < length views_to_consider"
    and exc: "exception (case movement_cost_srv e ! i of
                None \<Rightarrow> uninit_movement_cost e | Some m \<Rightarrow> m) \<noteq> NONE"
    and body: "loop_body std_error pe = Inr (left, pe1)"
  shows "views_to_consider ! i \<in> bad_views (fst pe1)"
proof -
  from body obtain vtc costs information view_returns p4 e5 nbv p5 where
    ev: "round_evaluate pe = Inr (vtc, costs, information, view_returns, p4, e5)"
    and sv: "saveNBVData nbv (make_return_info std_error (nbv_scan vtc costs view_returns) view_returns)
       (costs ! nbv) (information ! nbv) None None p4 = Inr p5"
    and fl: "flags_only p5 (fst pe1)"
    by (rule loop_body_Inr)
  from ev obtain p' e' pc p2 e2 e3 e4 where
    rc: "round_candidates pe = Inr (vtc, p', e')"
    and cl: "cost_loop vtc 0 (replicate (length vtc) 0)
       (p', ros_log_append INFO msg_retrieve_costs e') = Inr (costs, pc)"
    and p1: "pauseIfRequested pc = Inr (p2, e2)"
    and p2: "pauseIfRequested (p2, e3) = Inr (p4, e4)"
    by (rule round_evaluate_Inr)
  from rc cand have same: "vtc = views_to_consider" "p' = p" "e' = e" by simp_all
  have "views_to_consider ! i \<in> bad_views (fst pc)"
  proof (rule cost_loop_marks [OF cl [unfolded same]])
    show "0 \<le> i" by simp
    show "i < length (replicate (length views_to_consider) (0::real))" using i by simp
    show "exception (case movement_cost_srv (ros_log_append INFO msg_retrieve_costs e) ! (i - 0) of
        None \<Rightarrow> uninit_movement_cost (ros_log_append INFO msg_retrieve_costs e) | Some m \<Rightarrow> m) \<noteq> NONE"
      using exc by (simp add: ros_log_append_def cong: option.case_cong)
  qed
  moreover from pauseIfRequested_flags_only' [OF p1] have "bad_views p2 = bad_views (fst pc)"
    by (simp add: flags_only_bad_views)
  moreover from pauseIfRequested_flags_only' [OF p2] have "bad_views p4 = bad_views p2"
    by (simp add: flags_only_bad_views)
  moreover from saveNBVData_plain_Inr [OF sv] have "bad_views p5 = bad_views p4"
    by (auto simp: bad_views_def)
  moreover note flags_only_bad_views [OF fl]
  ultimately show ?thesis by simp
qed

text \<open>
  Claim C7. A candidate of a round whose cost description carries an exception is
  tagged bad when the round ends, and a view tagged bad when a round ends is tagged
  bad at the head of every later round of the loop and is not among that round's
  candidates: no operation of the loop clears the tag or replaces the view space.
\<close>

theorem bad_view_stays_excluded:
  "(round_candidates pe = Inr (views_to_consider, p, e) \<and> i < length views_to_consider \<and>
    exception (case movement_cost_srv e ! i of
                 None \<Rightarrow> uninit_movement_cost e | Some m \<Rightarrow> m) \<noteq> NONE \<and>
    loop_body std_error pe = Inr (left, pe1) \<longrightarrow>
      views_to_consider ! i \<in> bad_views (fst pe1)) \<and>
   (v \<in> bad_views (fst pe1) \<and> later_round std_error pe1 pe2 \<and>
    round_candidates pe2 = Inr (views_to_consider2, p2, e2) \<longrightarrow>
      v \<in> bad_views p2 \<and> v \<notin> set views_to_consider2)"
proof (intro conjI impI)
  assume "round_candidates pe = Inr (views_to_consider, p, e) \<and> i < length views_to_consider \<and>
    exception (case movement_cost_srv e ! i of
                 None \<Rightarrow> uninit_movement_cost e | Some m \<Rightarrow> m) \<noteq> NONE \<and>
    loop_body std_error pe = Inr (left, pe1)"
  then show "views_to_consider ! i \<in> bad_views (fst pe1)"
    using loop_body_marks [of pe views_to_consider p e i std_error left pe1] by blast
next
  assume a: "v \<in> bad_views (fst pe1) \<and> later_round std_error pe1 pe2 \<and>
    round_candidates pe2 = Inr (views_to_consider2, p2, e2)"
  then have "v \<in> bad_views (fst pe2)"
    using later_round_bad_views [of std_error pe1 pe2] by blast
  moreover from a have "set views_to_consider2 \<inter> bad_views (fst pe2) = {}"
    using round_candidates_good by blast
  moreover from a have "bad_views p2 = bad_views (fst pe2)"
    using round_candidates_Inr(3) flags_only_bad_views by blast
  ultimately show "v \<in> bad_views p2" "v \<notin> set views_to_consider2"
    by auto
qed

lemma exception_round_planner_fields:
  "cost_weight exception_round_planner = 1"
  "information_weights exception_round_planner = [2, 0, 0, 0, 0, 0, 0, 0, 0]"
  "view_space exception_round_planner = [(view_at 1 1, Bad), (view_at 2 2, Good)]"
  "pause exception_round_planner = False"
  "abort_loop exception_round_planner = False"
  "stop_and_print exception_round_planner = False"
  "current_view exception_round_planner = view_at 0 0"
  "planning_data exception_round_planner = []"
  by (simp_all add: exception_round_planner_def example_planner_def
      ViewPlanner_new_def metrics_to_use_def)

lemma exception_round_evaluate:
  "round_evaluate (example_planner, exception_env) =
     Inr ([0, 1], [-1, 2], [[], [10, 0, 0, 0, 0, 0, 0, 0, 0]], [0, 18],
          exception_round_planner,
          exception_env\<lparr>movement_cost_srv := [], information_srv := [],
            movement_cost_requests := [(view_at 0 0, view_at 1 1), (view_at 0 0, view_at 2 2)],
            ros_log := [(INFO, msg_retrieve_costs), (INFO, msg_retrieve_information),
                        (INFO, msg_calculating)]\<rparr>)"
  by (simp add: eval_defs eval_loops example_planner_fields exception_env_def quiet_env_def
      exception_round_planner_def)

lemma exception_loop_body:
  "loop_body StdError_model (example_planner, exception_env) = Inr (False, exception_round_end)"
  unfolding loop_body_def exception_round_evaluate
  by (simp add: Let_def eval_scan make_return_info_def
      StdError_model_def saveNBVData_def getView_def exception_round_planner_fields view_at_def
      terminationCriteriaFulfilled_def moveToAndWait_def moveToAndWait_loop.simps moveTo_def
      retrieveDataAndWait_def retrieveDataAndWait_loop.simps retrieveData_def spinOnce_def
      ros_log_append_def exception_env_def quiet_env_def exception_round_end_def power2_eq_square)

lemma exception_round_candidates:
  "round_candidates (example_planner, exception_env) = Inr ([0, 1], example_planner, exception_env)"
  "round_candidates exception_round_end = Inr ([1], exception_round_end)"
  by (simp_all add: round_candidates_def pauseIfRequested_def determineAvailableViewSpace_def
      getGoodViewSpace_def example_planner_fields exception_round_end_def
      exception_round_planner_fields)

theorem bad_view_stays_excluded_witness:
  "loop_body StdError_model (example_planner, exception_env) = Inr (False, exception_round_end) \<and>
   round_candidates exception_round_end = Inr ([1], exception_round_end) \<and>
   0 \<in> bad_views (fst exception_round_end) \<and> 0 \<notin> set [1::nat]"
proof -
  have later: "later_round StdError_model exception_round_end exception_round_end"
    by (rule later_round.next_round)
      (simp add: exception_round_end_def exception_round_planner_fields)
  have exc: "exception (case movement_cost_srv exception_env ! 0 of
      None \<Rightarrow> uninit_movement_cost exception_env | Some m \<Rightarrow> m) \<noteq> NONE"
    by (simp add: exception_env_def)
  have marked: "[0, 1] ! 0 \<in> bad_views (fst exception_round_end)"
    using bad_view_stays_excluded [of "(example_planner, exception_env)" "[0, 1]" example_planner
        exception_env 0 StdError_model False exception_round_end]
      exception_round_candidates(1) exception_loop_body exc
    by simp
  then have "0 \<in> bad_views (fst exception_round_end)" by simp
  with later exception_round_candidates(2) exception_loop_body
    bad_view_stays_excluded [of _ _ _ _ _ StdError_model _ exception_round_end 0 exception_round_end
      "[1]" "fst exception_round_end" "snd exception_round_end"]
  show ?thesis by simp
qed

subsection \<open>The statistics of the returns\<close>

lemma calculateReturn_fst_env:
  "fst (calculateReturn p c informations e) = fst (calculateReturn p c informations e0)"
  by (simp add: calculateReturn_def Let_def)

lemma view_returns_loop_nth:
  "view_returns_loop p costs information i view_returns e = (view_returns', e') \<Longrightarrow>
   length view_returns' = length view_returns \<and>
   (\<forall>j<length view_returns. view_returns' ! j =
      (if i \<le> j \<and> costs ! j \<noteq> -1
       then fst (calculateReturn p (costs ! j) (information ! j) e0)
       else view_returns ! j))"
proof (induction "length view_returns - i" arbitrary: i view_returns e)
  case 0
  then show ?case
    by (subst (asm) view_returns_loop.simps) auto
next
  case (Suc n)
  then have lt: "i < length view_returns" by simp
  show ?case
  proof (cases "costs ! i = -1")
    case True
    with Suc.prems lt have rec:
      "view_returns_loop p costs information (Suc i) view_returns e = (view_returns', e')"
      by (subst (asm) view_returns_loop.simps) simp
    have "n = length view_returns - Suc i" using Suc.hyps(2) by simp
    from Suc.hyps(1) [OF this rec] True show ?thesis
      by (auto simp: le_Suc_eq Suc_le_eq dest: le_neq_implies_less)
  next
    case False
    obtain r e1 where c: "calculateReturn p (costs ! i) (information ! i) e = (r, e1)"
      by (cases "calculateReturn p (costs ! i) (information ! i) e")
    with Suc.prems lt False have rec:
      "view_returns_loop p costs information (Suc i) (view_returns[i := r]) e1 = (view_returns', e')"
      by (subst (asm) view_returns_loop.simps) simp
    have r: "r = fst (calculateReturn p (costs ! i) (information ! i) e0)"
      using c calculateReturn_fst_env [of p "costs ! i" "information ! i" e e0] by simp
    have "n = length (view_returns[i := r]) - Suc i" using Suc.hyps(2) by simp
    from Suc.hyps(1) [OF this rec] r lt False show ?thesis
      by (auto simp: nth_list_update le_Suc_eq Suc_le_eq)
  qed
qed

text \<open>
  Claim C10. The mean and the standard deviation that a round records (the tenth and
  eleventh value of its row) are \<^verbatim>\<open>StdError\<close>'s mean and the square root of its
  variance over \<^verbatim>\<open>view_returns\<close>, which has one entry per candidate: the computed
  return of a viable candidate and 0 for a candidate excluded by cost \<open>-1\<close>. With a
  candidate excluded, that vector is longer than the list of viable candidates.
\<close>

theorem return_statistics_over_zero_filled:
  "round_evaluate pe = Inr (views_to_consider, costs, information, view_returns, p, e) \<and>
   loop_body std_error pe = Inr (left, p', e') \<longrightarrow>
     length view_returns = length views_to_consider \<and>
     length costs = length views_to_consider \<and>
     (\<forall>i<length views_to_consider.
        view_returns ! i =
          (if costs ! i = -1 then 0 else fst (calculateReturn p (costs ! i) (information ! i) e))) \<and>
     last (planning_data p') ! 9 = fst (std_error view_returns) \<and>
     last (planning_data p') ! 10 = sqrt (snd (std_error view_returns)) \<and>
     ((\<exists>i<length views_to_consider. costs ! i = -1) \<longrightarrow>
        length (filter (\<lambda>c. c \<noteq> -1) costs) < length view_returns)"
proof (intro impI, elim conjE)
  assume ev: "round_evaluate pe = Inr (views_to_consider, costs, information, view_returns, p, e)"
    and body: "loop_body std_error pe = Inr (left, p', e')"
  from ev obtain p0 e0 pc p2 e2 e3 e4 where
    cl: "cost_loop views_to_consider 0 (replicate (length views_to_consider) 0)
       (p0, ros_log_append INFO msg_retrieve_costs e0) = Inr (costs, pc)"
    and vr: "view_returns_loop p costs information 0 (replicate (length views_to_consider) 0)
       (ros_log_append INFO msg_calculating e4) = (view_returns, e)"
    by (rule round_evaluate_Inr)
  from cost_loop_bad_views [OF cl] have lc: "length costs = length views_to_consider" by simp
  from view_returns_loop_nth [OF vr, of e]
  have lv: "length view_returns = length views_to_consider"
    and nth: "\<forall>i<length views_to_consider.
        view_returns ! i =
          (if costs ! i = -1 then 0 else fst (calculateReturn p (costs ! i) (information ! i) e))"
    by auto
  from body obtain vtc costs' information' view_returns' p4 e5 nbv p5 where
    ev': "round_evaluate pe = Inr (vtc, costs', information', view_returns', p4, e5)"
    and sv: "saveNBVData nbv (make_return_info std_error (nbv_scan vtc costs' view_returns') view_returns')
       (costs' ! nbv) (information' ! nbv) None None p4 = Inr p5"
    and fl: "flags_only p5 (fst (p', e'))"
    by (rule loop_body_Inr)
  from ev ev' have same: "view_returns' = view_returns" by simp
  from saveNBVData_plain_Inr [OF sv] fl
  have row: "last (planning_data p') ! 9 = fst (std_error view_returns')"
    "last (planning_data p') ! 10 = sqrt (snd (std_error view_returns'))"
    by (auto simp: flags_only_def make_return_info_def)
  have excl: "(\<exists>i<length views_to_consider. costs ! i = -1) \<longrightarrow>
        length (filter (\<lambda>c. c \<noteq> -1) costs) < length view_returns"
  proof
    assume "\<exists>i<length views_to_consider. costs ! i = -1"
    then obtain i where i: "i < length costs" "costs ! i = -1" using lc by auto
    from i(1) have "costs ! i \<in> set costs" by (rule nth_mem)
    moreover from i(2) have "\<not> (costs ! i \<noteq> -1)" by simp
    ultimately have "length (filter (\<lambda>c. c \<noteq> -1) costs) < length costs"
      by (rule length_filter_less)
    with lc lv show "length (filter (\<lambda>c. c \<noteq> -1) costs) < length view_returns" by simp
  qed
  from lv lc nth row same excl
  show "length view_returns = length views_to_consider \<and>
     length costs = length views_to_consider \<and>
     (\<forall>i<length views_to_consider.
        view_returns ! i =
          (if costs ! i = -1 then 0 else fst (calculateReturn p (costs ! i) (information ! i) e))) \<and>
     last (planning_data p') ! 9 = fst (std_error view_returns) \<and>
     last (planning_data p') ! 10 = sqrt (snd (std_error view_returns)) \<and>
     ((\<exists>i<length views_to_consider. costs ! i = -1) \<longrightarrow>
        length (filter (\<lambda>c. c \<noteq> -1) costs) < length view_returns)"
    by simp
qed

theorem return_statistics_over_zero_filled_witness:
  "round_evaluate (example_planner, exception_env) =
     Inr ([0, 1], [-1, 2], [[], [10, 0, 0, 0, 0, 0, 0, 0, 0]], [0, 18],
          exception_round_planner,
          exception_env\<lparr>movement_cost_srv := [], information_srv := [],
            movement_cost_requests := [(view_at 0 0, view_at 1 1), (view_at 0 0, view_at 2 2)],
            ros_log := [(INFO, msg_retrieve_costs), (INFO, msg_retrieve_information),
                        (INFO, msg_calculating)]\<rparr>) \<and>
   loop_body StdError_model (example_planner, exception_env) = Inr (False, exception_round_end) \<and>
   StdError_model [0, 18] = (9, 81) \<and>
   last (planning_data (fst exception_round_end)) ! 9 = 9 \<and>
   last (planning_data (fst exception_round_end)) ! 10 = sqrt 81 \<and>
   length (filter (\<lambda>c. c \<noteq> -1) [-1, 2 :: real]) < length [0, 18 :: real]"
proof -
  have m: "StdError_model [0, 18] = (9, 81)"
    by (simp add: StdError_model_def power2_eq_square)
  show ?thesis
    using return_statistics_over_zero_filled [of "(example_planner, exception_env)" "[0, 1]" "[-1, 2]"
        "[[], [10, 0, 0, 0, 0, 0, 0, 0, 0]]" "[0, 18]" exception_round_planner _
        StdError_model False "fst exception_round_end" "snd exception_round_end"]
      exception_round_evaluate exception_loop_body m
    by simp
qed

subsection \<open>Extra fields of a recorded row\<close>

lemma getIndexForAdditionalField_from_found:
  "i \<le> k \<Longrightarrow> k < length names \<Longrightarrow> names ! k = name \<Longrightarrow>
   (\<forall>j. i \<le> j \<and> j < k \<longrightarrow> names ! j \<noteq> name) \<Longrightarrow>
   getIndexForAdditionalField_from name names i = Some k"
proof (induction "k - i" arbitrary: i)
  case 0
  then have "i = k" by simp
  with 0 show ?case by (subst getIndexForAdditionalField_from.simps) simp
next
  case (Suc n)
  then have "i < k" "names ! i \<noteq> name" by auto
  moreover have "getIndexForAdditionalField_from name names (Suc i) = Some k"
    using Suc by (intro Suc.hyps(1)) auto
  ultimately show ?case
    using Suc.prems by (subst getIndexForAdditionalField_from.simps) simp
qed

lemma getIndexForAdditionalField_from_none:
  "(\<forall>j. i \<le> j \<and> j < length names \<longrightarrow> names ! j \<noteq> name) \<Longrightarrow>
   getIndexForAdditionalField_from name names i = None"
proof (induction "length names - i" arbitrary: i)
  case 0
  then show ?case by (subst getIndexForAdditionalField_from.simps) simp
next
  case (Suc n)
  then have "i < length names" "names ! i \<noteq> name" by auto
  moreover have "getIndexForAdditionalField_from name names (Suc i) = None"
    using Suc by (intro Suc.hyps(1)) auto
  ultimately show ?case
    by (subst getIndexForAdditionalField_from.simps) simp
qed

lemma column_found:
  assumes "name \<notin> set pre"
  shows "getIndexForAdditionalField_from name (pre @ name # post) 0 = Some (length pre)"
proof (rule getIndexForAdditionalField_from_found)
  show "\<forall>j. 0 \<le> j \<and> j < length pre \<longrightarrow> (pre @ name # post) ! j \<noteq> name"
    using assms by (auto simp: nth_append)
qed simp_all

lemma column_missing:
  assumes "name \<notin> set names"
  shows "getIndexForAdditionalField_from name names 0 = None"
proof (rule getIndexForAdditionalField_from_none)
  show "\<forall>j. 0 \<le> j \<and> j < length names \<longrightarrow> names ! j \<noteq> name"
    using assms by auto
qed

lemma getIndexForAdditionalField_new:
  "name \<notin> set (planning_data_names p) \<Longrightarrow>
   getIndexForAdditionalField name p =
     (length (planning_data_names p), p\<lparr>planning_data_names := planning_data_names p @ [name]\<rparr>)"
  by (simp add: getIndexForAdditionalField_def Let_def column_missing)

lemma getIndexForAdditionalField_old:
  "name \<notin> set pre \<Longrightarrow> planning_data_names p = pre @ name # post \<Longrightarrow>
   getIndexForAdditionalField name p = (length pre, p)"
  by (simp add: getIndexForAdditionalField_def column_found)

lemma length_field_written:
  "length (field_written d i v) = max (length d) (Suc i)"
  by (auto simp: field_written_def resize_def)

lemma nth_field_written:
  "j < max (length d) (Suc i) \<Longrightarrow>
   field_written d i v ! j = (if j = i then v else if j < length d then d ! j else 0)"
  by (auto simp: field_written_def resize_def nth_list_update nth_append)

lemma saveNBVData_fields_two:
  "saveNBVData_fields [n1, n2] [v1, v2] 0 d p =
     (case getIndexForAdditionalField n1 p of
        (i1, p1) \<Rightarrow>
          (case getIndexForAdditionalField n2 p1 of
             (i2, p2) \<Rightarrow> (field_written (field_written d i1 v1) i2 v2, p2)))"
  by (simp add: saveNBVData_fields.simps field_written_def Let_def split: prod.splits)

lemma length_base_row [simp]: "length (base_row nbv info c ig) = 12 + length ig"
  by (simp add: base_row_def)

lemma saveNBVData_two_fields:
  assumes "nbv < length (view_space p)"
  shows "saveNBVData nbv info c ig (Some [n1, n2]) (Some [v1, v2]) p =
     (case getIndexForAdditionalField n1 p of
        (i1, p1) \<Rightarrow>
          (case getIndexForAdditionalField n2 p1 of
             (i2, p2) \<Rightarrow>
               Inr (p2\<lparr>planning_data := planning_data p2 @
                 [field_written (field_written (base_row (fst (view_space p ! nbv)) info c ig) i1 v1) i2 v2]\<rparr>)))"
  using assms
  by (simp add: saveNBVData_def getView_def saveNBVData_fields_two base_row_def Let_def
      split: prod.splits)

lemma record_AB:
  assumes "nbv < length (view_space p)" "A \<notin> set (planning_data_names p)"
    "B \<notin> set (planning_data_names p)" "A \<noteq> B"
  shows "saveNBVData nbv info c ig (Some [A, B]) (Some [a, b]) p =
     Inr (p\<lparr>planning_data_names := planning_data_names p @ [A, B],
            planning_data := planning_data p @
              [field_written (field_written (base_row (fst (view_space p ! nbv)) info c ig)
                 (length (planning_data_names p)) a) (Suc (length (planning_data_names p))) b]\<rparr>)"
  using assms
  by (simp add: saveNBVData_two_fields getIndexForAdditionalField_new)

lemma record_AC:
  assumes "nbv < length (view_space p)" "planning_data_names p = names @ [A, B]"
    "A \<notin> set names" "C \<notin> set names" "C \<noteq> A" "C \<noteq> B"
  shows "saveNBVData nbv info c ig (Some [A, C]) (Some [a, c']) p =
     Inr (p\<lparr>planning_data_names := names @ [A, B, C],
            planning_data := planning_data p @
              [field_written (field_written (base_row (fst (view_space p ! nbv)) info c ig)
                 (length names) a) (Suc (Suc (length names))) c']\<rparr>)"
proof -
  have old: "getIndexForAdditionalField A p = (length names, p)"
    using assms by (intro getIndexForAdditionalField_old [where post = "[B]"]) simp_all
  have new: "getIndexForAdditionalField C p =
      (length (planning_data_names p), p\<lparr>planning_data_names := planning_data_names p @ [C]\<rparr>)"
    using assms by (intro getIndexForAdditionalField_new) simp
  show ?thesis
    using assms(1,2) by (simp add: saveNBVData_two_fields old new)
qed

text \<open>
  Claim C6, amended. Record a row with the extra fields \<open>A\<close>, \<open>B\<close> and then a row with
  the extra fields \<open>A\<close>, \<open>C\<close>, the three names new and the information vectors no
  longer than the metric columns, and write the file. Both calls and the write
  succeed; the first line of the file ends with \<open>A\<close>, \<open>B\<close>, \<open>C\<close> in this order; the
  second row holds its values for \<open>A\<close> and \<open>C\<close> and 0 in column \<open>B\<close>; the first row holds
  its values for \<open>A\<close> and \<open>B\<close> and stays as it was recorded, two values longer than the
  columns before \<open>A\<close>: it has no value in column \<open>C\<close>.
\<close>

theorem backfill_amended:
  assumes views: "nbv1 < length (view_space p)" "nbv2 < length (view_space p)"
    and fresh: "A \<notin> set (planning_data_names p)" "B \<notin> set (planning_data_names p)"
      "C \<notin> set (planning_data_names p)" "A \<noteq> B" "A \<noteq> C" "B \<noteq> C"
    and fits: "12 + length ig1 \<le> length (planning_data_names p)"
      "12 + length ig2 \<le> length (planning_data_names p)"
    and rows: "[] \<notin> set (planning_data p)"
  shows "\<exists>p1 p2 f.
     saveNBVData nbv1 info1 c1 ig1 (Some [A, B]) (Some [a1, b1]) p = Inr p1 \<and>
     saveNBVData nbv2 info2 c2 ig2 (Some [A, C]) (Some [a2, c2']) p1 = Inr p2 \<and>
     saveDataToFile p2 e = Inr (e\<lparr>files := files e @ [f]\<rparr>) \<and>
     first_line f = planning_data_names p @ [A, B, C] \<and>
     length (value_lines f) = length (planning_data p) + 2 \<and>
     table_cell f (length (planning_data p)) A = Some a1 \<and>
     table_cell f (length (planning_data p)) B = Some b1 \<and>
     table_cell f (length (planning_data p)) C = None \<and>
     length (value_lines f ! length (planning_data p)) = length (planning_data_names p) + 2 \<and>
     table_cell f (Suc (length (planning_data p))) A = Some a2 \<and>
     table_cell f (Suc (length (planning_data p))) B = Some 0 \<and>
     table_cell f (Suc (length (planning_data p))) C = Some c2'"
proof -
  let ?names = "planning_data_names p"
  let ?N = "length ?names"
  let ?n = "length (planning_data p)"
  let ?row1 = "field_written (field_written (base_row (fst (view_space p ! nbv1)) info1 c1 ig1) ?N a1)
      (Suc ?N) b1"
  let ?p1 = "p\<lparr>planning_data_names := ?names @ [A, B], planning_data := planning_data p @ [?row1]\<rparr>"
  let ?row2 = "field_written (field_written (base_row (fst (view_space p ! nbv2)) info2 c2 ig2) ?N a2)
      (Suc (Suc ?N)) c2'"
  let ?p2 = "?p1\<lparr>planning_data_names := ?names @ [A, B, C],
      planning_data := planning_data ?p1 @ [?row2]\<rparr>"
  let ?f = "\<lparr>first_line = ?names @ [A, B, C], value_lines = planning_data p @ [?row1, ?row2]\<rparr>"
  have r1: "saveNBVData nbv1 info1 c1 ig1 (Some [A, B]) (Some [a1, b1]) p = Inr ?p1"
    using views(1) fresh by (intro record_AB) simp_all
  have r2: "saveNBVData nbv2 info2 c2 ig2 (Some [A, C]) (Some [a2, c2']) ?p1 = Inr ?p2"
    using views(2) fresh
      record_AC [of nbv2 ?p1 ?names A B C info2 c2 ig2 a2 c2']
    by simp
  have l1: "length ?row1 = ?N + 2"
    using fits(1) by (simp add: length_field_written)
  have l2: "length ?row2 = ?N + 3"
    using fits(2) by (simp add: length_field_written)
  have "?row1 \<noteq> []" "?row2 \<noteq> []" using l1 l2 by auto
  moreover have "?names \<noteq> []" using fits(1) by auto
  ultimately have fl: "saveDataToFile ?p2 e = Inr (e\<lparr>files := files e @ [?f]\<rparr>)"
    using rows by (auto simp: saveDataToFile_def)
  have colA: "getIndexForAdditionalField_from A (?names @ [A, B, C]) 0 = Some ?N"
    using column_found [of A ?names "[B, C]"] fresh by simp
  have colB: "getIndexForAdditionalField_from B (?names @ [A, B, C]) 0 = Some (Suc ?N)"
    using column_found [of B "?names @ [A]" "[C]"] fresh by simp
  have colC: "getIndexForAdditionalField_from C (?names @ [A, B, C]) 0 = Some (Suc (Suc ?N))"
    using column_found [of C "?names @ [A, B]" "[]"] fresh by simp
  have v1: "(planning_data p @ [?row1, ?row2]) ! ?n = ?row1" by (simp add: nth_append)
  have v2: "(planning_data p @ [?row1, ?row2]) ! Suc ?n = ?row2" by (simp add: nth_append)
  have c1: "?row1 ! ?N = a1" "?row1 ! Suc ?N = b1"
    using fits(1) by (simp_all add: nth_field_written length_field_written)
  have c2: "?row2 ! ?N = a2" "?row2 ! Suc ?N = 0" "?row2 ! Suc (Suc ?N) = c2'"
    using fits(2) by (simp_all add: nth_field_written length_field_written)
  have cells:
    "table_cell ?f ?n A = Some a1" "table_cell ?f ?n B = Some b1" "table_cell ?f ?n C = None"
    "table_cell ?f (Suc ?n) A = Some a2" "table_cell ?f (Suc ?n) B = Some 0"
    "table_cell ?f (Suc ?n) C = Some c2'"
    using l1 l2 c1 c2
    by (simp_all add: table_cell_def colA colB colC v1 v2 del: nth_append_length)
  have "length (value_lines ?f) = ?n + 2" "length (value_lines ?f ! ?n) = ?N + 2"
    "first_line ?f = ?names @ [A, B, C]"
    using l1 by (simp_all add: v1)
  with r1 r2 fl cells show ?thesis by blast
qed

lemma example_planner_names:
  "planning_data_names example_planner =
     [''pos_x'', ''pos_y'', ''pos_z'', ''rot_x'', ''rot_y'', ''rot_z'', ''rot_w'',
      ''return_value'', ''winning_margin'', ''return_value_mean'', ''return_value_stddev'',
      ''cost'', ''NrOfUnknownVoxels'', ''AverageUncertainty'', ''AverageEndPointUncertainty'',
      ''UnknownObjectSideFrontier'', ''UnknownObjectVolumeFrontier'', ''ClassicFrontier'',
      ''EndNodeOccupancySum'', ''TotalOccupancyCertainty'', ''TotalNrOfOccupieds'']"
  by (simp add: example_planner_def ViewPlanner_new_def)

lemmas eval_record =
  saveNBVData_def saveNBVData_fields.simps getIndexForAdditionalField_def
  getIndexForAdditionalField_from.simps resize_def getView_def Let_def view_at_def

lemma backfill_record1:
  "saveNBVData 0 example_info 1 [5, 0, 0, 0, 0, 0, 0, 0, 0] (Some [''A'', ''B'']) (Some [7, 8])
     example_planner = Inr backfill_planner1"
  by (simp add: eval_record example_planner_fields example_planner_names example_info_def
      backfill_planner1_def backfill_row1_def)

lemma backfill_planner1_fields:
  "view_space backfill_planner1 = [(view_at 1 1, Good), (view_at 2 2, Good)]"
  "planning_data backfill_planner1 = [backfill_row1]"
  "planning_data_names backfill_planner1 = planning_data_names example_planner @ [''A'', ''B'']"
  by (simp_all add: backfill_planner1_def example_planner_fields)

lemma backfill_record2:
  "saveNBVData 1 example_info 2 [10, 0, 0, 0, 0, 0, 0, 0, 0] (Some [''A'', ''C'']) (Some [70, 90])
     backfill_planner1 = Inr backfill_planner2"
  by (simp add: eval_record backfill_planner1_fields example_planner_names example_info_def
      backfill_planner2_def backfill_planner1_def backfill_row2_def example_planner_fields)

lemma backfill_flush:
  "saveDataToFile backfill_planner2 quiet_env = Inr (quiet_env\<lparr>files := [backfill_file]\<rparr>)"
  by (simp add: saveDataToFile_def backfill_planner2_def backfill_file_def quiet_env_def
      example_planner_names backfill_row1_def backfill_row2_def)

text \<open>
  Claim C6 says that after recording rows with the extra fields \<open>{A, B}\<close> and then
  \<open>{A, C}\<close> the written table has 0 in column \<open>C\<close> of the first row. On the planner
  as constructed (21 columns), the written file has 24 names in its first line and 23
  values in the first row: that row has no value in column \<open>C\<close>.
\<close>

theorem backfill_first_row_counterexample:
  "saveNBVData 0 example_info 1 [5, 0, 0, 0, 0, 0, 0, 0, 0] (Some [''A'', ''B'']) (Some [7, 8])
     example_planner = Inr backfill_planner1 \<and>
   saveNBVData 1 example_info 2 [10, 0, 0, 0, 0, 0, 0, 0, 0] (Some [''A'', ''C'']) (Some [70, 90])
     backfill_planner1 = Inr backfill_planner2 \<and>
   saveDataToFile backfill_planner2 quiet_env = Inr (quiet_env\<lparr>files := [backfill_file]\<rparr>) \<and>
   length (first_line backfill_file) = 24 \<and>
   length (value_lines backfill_file ! 0) = 23 \<and>
   table_cell backfill_file 0 ''C'' = None \<and>
   table_cell backfill_file 0 ''C'' \<noteq> Some 0"
  by (simp only: backfill_record1 backfill_record2 backfill_flush)
    (simp add: backfill_file_def table_cell_def getIndexForAdditionalField_from.simps
      example_planner_names backfill_row1_def)

theorem backfill_amended_witness:
  "\<exists>p1 p2 f.
     saveNBVData 0 example_info 1 [5, 0, 0, 0, 0, 0, 0, 0, 0] (Some [''A'', ''B'']) (Some [7, 8])
       example_planner = Inr p1 \<and>
     saveNBVData 1 example_info 2 [10, 0, 0, 0, 0, 0, 0, 0, 0] (Some [''A'', ''C'']) (Some [70, 90])
       p1 = Inr p2 \<and>
     saveDataToFile p2 quiet_env = Inr (quiet_env\<lparr>files := files quiet_env @ [f]\<rparr>) \<and>
     first_line f = planning_data_names example_planner @ [''A'', ''B'', ''C''] \<and>
     table_cell f 0 ''A'' = Some 7 \<and> table_cell f 0 ''B'' = Some 8 \<and> table_cell f 0 ''C'' = None \<and>
     table_cell f 1 ''A'' = Some 70 \<and> table_cell f 1 ''B'' = Some 0 \<and> table_cell f 1 ''C'' = Some 90"
  using backfill_amended [of 0 example_planner 1 "''A''" "''B''" "''C''"
      "[5, 0, 0, 0, 0, 0, 0, 0, 0]" "[10, 0, 0, 0, 0, 0, 0, 0, 0]"
      example_info 1 7 8 example_info 2 70 90 quiet_env]
  by (simp add: example_planner_fields example_planner_names) blast

subsection \<open>The cost loop as a whole\<close>

text \<open>
  What the cost loop leaves, from candidate \<open>i\<close> on: one request per candidate, in
  order, for the way from the current view to the candidate; one answer of the script
  read per candidate; bad are the views that were bad and the candidates whose cost
  description carries an exception; the cost of such a candidate is \<open>-1\<close>, that of any
  other the cost of its description.
\<close>

lemma fst_nth_setBad [simp]: "fst (setBad vs v ! w) = fst (vs ! w)"
  by (cases "w = v") (auto simp: setBad_def)

lemma cost_loop_result:
  "cost_loop views_to_consider i costs (p, e) = Inr (costs', p', e') \<Longrightarrow>
   movement_cost_requests e' =
     movement_cost_requests e @
       map (\<lambda>j. (current_view p, fst (view_space p ! (views_to_consider ! j)))) [i..<length costs] \<and>
   movement_cost_srv e' = drop (length costs - i) (movement_cost_srv e) \<and>
   length costs - i \<le> length (movement_cost_srv e) \<and>
   bad_views p' =
     bad_views p \<union> {views_to_consider ! j |j. i \<le> j \<and> j < length costs \<and>
                       exception (cost_description_of e (j - i)) \<noteq> NONE} \<and>
   (\<forall>j<length costs. costs' ! j =
      (if i \<le> j
       then if exception (cost_description_of e (j - i)) \<noteq> NONE then -1
            else cost (cost_description_of e (j - i))
       else costs ! j))"
proof (induction "length costs - i" arbitrary: i costs p e)
  case 0
  then have "costs' = costs" "p' = p" "e' = e"
    by (subst (asm) cost_loop.simps, simp)+
  with 0 show ?case by auto
next
  case (Suc n)
  then have lt: "i < length costs" by simp
  from cost_loop_Inr_pre [OF Suc.prems lt] obtain r rest where
    rng: "views_to_consider ! i < length (view_space p)" and srv: "movement_cost_srv e = r # rest"
    by blast
  let ?cd = "case r of None \<Rightarrow> uninit_movement_cost e | Some m' \<Rightarrow> m'"
  let ?e' = "e\<lparr>movement_cost_srv := rest,
               movement_cost_requests := movement_cost_requests e @
                 [(current_view p, fst (view_space p ! (views_to_consider ! i)))]\<rparr>"
  let ?pb = "p\<lparr>view_space := setBad (view_space p) (views_to_consider ! i)\<rparr>"
  have step: "(if exception ?cd \<noteq> NONE
               then cost_loop views_to_consider (Suc i) (costs[i := -1]) (?pb, ?e')
               else cost_loop views_to_consider (Suc i) (costs[i := cost ?cd]) (p, ?e'))
              = Inr (costs', p', e')"
    using Suc.prems cost_loop_step [OF lt rng srv] by (simp add: Let_def)
  have cd0: "cost_description_of e 0 = ?cd"
    by (simp add: cost_description_of_def srv)
  have cdS: "\<And>k. cost_description_of ?e' k = cost_description_of e (Suc k)"
    by (simp add: cost_description_of_def srv cong: option.case_cong)
  have upt: "[i..<length costs] = i # [Suc i..<length costs]"
    using lt by (simp add: upt_conv_Cons)
  have idx: "\<And>j. Suc i \<le> j \<Longrightarrow> Suc (j - Suc i) = j - i" by simp
  have d: "length costs - i = Suc (length costs - Suc i)" using lt by simp
  have split: "\<And>P. {views_to_consider ! j |j. i \<le> j \<and> j < length costs \<and> P j} =
      (if P i then {views_to_consider ! i} else {}) \<union>
      {views_to_consider ! j |j. Suc i \<le> j \<and> j < length costs \<and> P j}"
    using lt by (auto simp: Suc_le_eq le_less)
  show ?case
  proof (cases "exception ?cd \<noteq> NONE")
    case True
    with step have rec: "cost_loop views_to_consider (Suc i) (costs[i := -1]) (?pb, ?e') = Inr (costs', p', e')"
      by simp
    have n: "n = length (costs[i := -1]) - Suc i" using Suc.hyps(2) by simp
    note ih = Suc.hyps(1) [OF n rec, simplified cdS]
    have b: "bad_views ?pb = insert (views_to_consider ! i) (bad_views p)"
      using rng by (simp add: bad_views_setBad)
    show ?thesis
      apply (intro conjI)
      subgoal using ih by (simp add: upt)
      subgoal using ih srv by (simp add: d)
      subgoal using ih srv by (simp add: d)
      subgoal using ih True b cd0 by (subst split) (auto simp: idx)
      subgoal using ih True cd0 lt by (auto simp: idx nth_list_update Suc_le_eq le_less)
      done
  next
    case False
    with step have rec: "cost_loop views_to_consider (Suc i) (costs[i := cost ?cd]) (p, ?e')
        = Inr (costs', p', e')"
      by simp
    have n: "n = length (costs[i := cost ?cd]) - Suc i" using Suc.hyps(2) by simp
    note ih = Suc.hyps(1) [OF n rec, simplified cdS]
    show ?thesis
      apply (intro conjI)
      subgoal using ih by (simp add: upt)
      subgoal using ih srv by (simp add: d)
      subgoal using ih srv by (simp add: d)
      subgoal using ih False cd0 by (subst split) (auto simp: idx)
      subgoal using ih False cd0 lt by (auto simp: idx nth_list_update Suc_le_eq le_less)
      done
  qed
qed

subsection \<open>The recorder stays writable\<close>

lemma recorder_ok_new: "recorder_ok (ViewPlanner_new cost_weight_param weight_param default_view)"
  by (simp add: recorder_ok_def ViewPlanner_new_def)

lemma getIndexForAdditionalField_frame:
  assumes "getIndexForAdditionalField name p = (index, p')"
  shows "planning_data p' = planning_data p \<and> view_space p' = view_space p \<and>
    (planning_data_names p \<noteq> [] \<longrightarrow> planning_data_names p' \<noteq> [])"
  using assms
  by (auto simp: getIndexForAdditionalField_def Let_def split: option.splits)

lemma saveNBVData_fields_frame:
  "saveNBVData_fields names vals i d p = (d', p') \<Longrightarrow>
   length d \<le> length d' \<and> planning_data p' = planning_data p \<and> view_space p' = view_space p \<and>
   (planning_data_names p \<noteq> [] \<longrightarrow> planning_data_names p' \<noteq> [])"
proof (induction "length names - i" arbitrary: i d p)
  case 0
  then show ?case by (subst (asm) saveNBVData_fields.simps) auto
next
  case (Suc n)
  then have lt: "i < length names" by simp
  obtain index p1 where g: "getIndexForAdditionalField (names ! i) p = (index, p1)"
    by (cases "getIndexForAdditionalField (names ! i) p")
  let ?d1 = "(if length d \<le> index then resize d (index + 1) else d)[index := vals ! i]"
  from Suc.prems lt g have rec: "saveNBVData_fields names vals (Suc i) ?d1 p1 = (d', p')"
    by (subst (asm) saveNBVData_fields.simps) (simp add: Let_def)
  have "n = length names - Suc i" using Suc.hyps(2) by simp
  from Suc.hyps(1) [OF this rec] getIndexForAdditionalField_frame [OF g]
  show ?case by (auto simp: resize_def split: if_splits)
qed

lemma saveNBVData_recorder_ok:
  assumes "recorder_ok p" "saveNBVData nbv info c ig names vals p = Inr p'"
  shows "recorder_ok p'"
proof -
  let ?d = "[position_x (pose (fst (view_space p ! nbv))), position_y (pose (fst (view_space p ! nbv))),
         position_z (pose (fst (view_space p ! nbv))), orientation_x (pose (fst (view_space p ! nbv))),
         orientation_y (pose (fst (view_space p ! nbv))), orientation_z (pose (fst (view_space p ! nbv))),
         orientation_w (pose (fst (view_space p ! nbv))),
         return_value info, winning_margin info, return_value_mean info, return_value_stddev info, c]
        @ ig"
  from assms(2) obtain d' p1 where
    p': "p' = p1\<lparr>planning_data := planning_data p1 @ [d']\<rparr>"
    and f: "(d', p1) = (?d, p) \<or> (\<exists>ns vs. saveNBVData_fields ns vs 0 ?d p = (d', p1))"
    by (auto simp: saveNBVData_def getView_def and_then_Inr_iff Let_def
        split: if_splits option.splits prod.splits)
  from f have "length ?d \<le> length d' \<and> planning_data p1 = planning_data p \<and>
      (planning_data_names p \<noteq> [] \<longrightarrow> planning_data_names p1 \<noteq> [])"
    using saveNBVData_fields_frame by blast
  with assms(1) p' show ?thesis
    by (auto simp: recorder_ok_def)
qed


lemma cost_loop_recorder:
  "cost_loop views_to_consider i costs (p, e) = Inr (costs', pe') \<Longrightarrow>
   planning_data (fst pe') = planning_data p \<and>
   planning_data_names (fst pe') = planning_data_names p"
proof (induction "length costs - i" arbitrary: i costs p e)
  case 0
  then show ?case by (subst (asm) cost_loop.simps) auto
next
  case (Suc n)
  then have lt: "i < length costs" by simp
  from cost_loop_Inr_pre [OF Suc.prems lt] obtain r rest where
    rng: "views_to_consider ! i < length (view_space p)" and srv: "movement_cost_srv e = r # rest"
    by blast
  let ?cd = "case r of None \<Rightarrow> uninit_movement_cost e | Some m' \<Rightarrow> m'"
  let ?e' = "e\<lparr>movement_cost_srv := rest,
               movement_cost_requests := movement_cost_requests e @
                 [(current_view p, fst (view_space p ! (views_to_consider ! i)))]\<rparr>"
  let ?pb = "p\<lparr>view_space := setBad (view_space p) (views_to_consider ! i)\<rparr>"
  have step: "(if exception ?cd \<noteq> NONE
               then cost_loop views_to_consider (Suc i) (costs[i := -1]) (?pb, ?e')
               else cost_loop views_to_consider (Suc i) (costs[i := cost ?cd]) (p, ?e'))
              = Inr (costs', pe')"
    using Suc.prems cost_loop_step [OF lt rng srv] by (simp add: Let_def)
  show ?case
  proof (cases "exception ?cd \<noteq> NONE")
    case True
    with step have rec: "cost_loop views_to_consider (Suc i) (costs[i := -1]) (?pb, ?e') = Inr (costs', pe')"
      by simp
    have "n = length (costs[i := -1]) - Suc i" using Suc.hyps(2) by simp
    from Suc.hyps(1) [OF this rec] show ?thesis by simp
  next
    case False
    with step have rec: "cost_loop views_to_consider (Suc i) (costs[i := cost ?cd]) (p, ?e')
        = Inr (costs', pe')"
      by simp
    have "n = length (costs[i := cost ?cd]) - Suc i" using Suc.hyps(2) by simp
    from Suc.hyps(1) [OF this rec] show ?thesis by simp
  qed
qed

lemma loop_body_recorder_ok:
  assumes "recorder_ok (fst pe)" "loop_body std_error pe = Inr (left, pe')"
  shows "recorder_ok (fst pe')"
proof -
  from assms(2) obtain views_to_consider costs information view_returns p4 e5 nbv p5 where
    ev: "round_evaluate pe = Inr (views_to_consider, costs, information, view_returns, p4, e5)"
    and sv: "saveNBVData nbv (make_return_info std_error (nbv_scan views_to_consider costs view_returns) view_returns)
       (costs ! nbv) (information ! nbv) None None p4 = Inr p5"
    and fl: "flags_only p5 (fst pe')"
    by (rule loop_body_Inr)
  from ev obtain p e pc p2 e2 e3 e4 where
    rc: "round_candidates pe = Inr (views_to_consider, p, e)"
    and cl: "cost_loop views_to_consider 0 (replicate (length views_to_consider) 0)
       (p, ros_log_append INFO msg_retrieve_costs e) = Inr (costs, pc)"
    and p1: "pauseIfRequested pc = Inr (p2, e2)"
    and p2: "pauseIfRequested (p2, e3) = Inr (p4, e4)"
    by (rule round_evaluate_Inr)
  from round_candidates_Inr(3) [OF rc] assms(1) have "recorder_ok p"
    by (rule flags_only_recorder_ok)
  with cost_loop_recorder [OF cl] have "recorder_ok (fst pc)"
    by (simp add: recorder_ok_def)
  with pauseIfRequested_flags_only' [OF p1] have "recorder_ok p2"
    by (auto intro: flags_only_recorder_ok)
  with pauseIfRequested_flags_only' [OF p2] have "recorder_ok p4"
    by (auto intro: flags_only_recorder_ok)
  then have "recorder_ok p5" using sv by (rule saveNBVData_recorder_ok)
  with fl show ?thesis by (rule flags_only_recorder_ok)
qed

lemma later_round_recorder_ok:
  "later_round std_error pe pe' \<Longrightarrow> recorder_ok (fst pe) \<Longrightarrow> recorder_ok (fst pe')"
proof (induction rule: later_round.induct)
  case (next_round pe)
  then show ?case by simp
next
  case (further_round pe pe1 pe2)
  then show ?case by (blast intro: loop_body_recorder_ok)
qed

subsection \<open>The winning margin\<close>

text \<open>
  What the scan leaves in \<^verbatim>\<open>second_highest\<close> when it has assigned an index \<open>k\<close>: the
  value \<^verbatim>\<open>highest_return\<close> held when candidate \<open>k\<close> was met, which is the greatest of 0
  and the returns of the viable candidates before \<open>k\<close>. No candidate after \<open>k\<close> is
  looked at for it.
\<close>

lemma nbv_scan_second_highest:
  assumes "nbv_index (nbv_scan views_to_consider costs view_returns) = Some k"
  shows "second_highest (nbv_scan views_to_consider costs view_returns) =
     Max (insert 0 {view_returns ! j | j. j < k \<and> costs ! j \<noteq> -1})"
proof -
  let ?st = "nbv_scan views_to_consider costs view_returns"
  let ?S = "insert 0 {view_returns ! j | j. j < k \<and> costs ! j \<noteq> -1}"
  have inv: "nbv_scan_inv costs view_returns (length views_to_consider) ?st"
    by (rule nbv_scan_inv)
  have fin: "finite ?S" by simp
  have mem: "second_highest ?st \<in> ?S"
    using inv assms by (auto simp: nbv_scan_inv_def)
  have ub: "\<And>y. y \<in> ?S \<Longrightarrow> y \<le> second_highest ?st"
    using inv assms by (auto simp: nbv_scan_inv_def)
  from fin ub mem have "Max ?S = second_highest ?st"
    by (rule Max_eqI)
  then show ?thesis by simp
qed

text \<open>
  Every pass through the loop body that records a row records a positive margin: the
  return of the selected candidate \<open>k\<close> minus the greatest of 0 and the returns of the
  viable candidates before \<open>k\<close>.
\<close>

lemma recorded_winning_margin:
  assumes "loop_body std_error pe = Inr (left, p', e')"
  shows "\<exists>views_to_consider costs information view_returns p e k.
     round_evaluate pe = Inr (views_to_consider, costs, information, view_returns, p, e) \<and>
     nbv_index (nbv_scan views_to_consider costs view_returns) = Some k \<and>
     last (planning_data p') ! 8 =
       view_returns ! k - Max (insert 0 {view_returns ! j | j. j < k \<and> costs ! j \<noteq> -1}) \<and>
     0 < last (planning_data p') ! 8"
proof -
  from assms obtain views_to_consider costs information view_returns p4 e5 nbv p5 where
    ev: "round_evaluate pe = Inr (views_to_consider, costs, information, view_returns, p4, e5)"
    and nbv: "nbv_index (nbv_scan views_to_consider costs view_returns) = Some nbv"
    and sv: "saveNBVData nbv
       (make_return_info std_error (nbv_scan views_to_consider costs view_returns) view_returns)
       (costs ! nbv) (information ! nbv) None None p4 = Inr p5"
    and fl: "flags_only p5 (fst (p', e'))"
    by (rule loop_body_Inr)
  let ?st = "nbv_scan views_to_consider costs view_returns"
  have inv: "nbv_scan_inv costs view_returns (length views_to_consider) ?st"
    by (rule nbv_scan_inv)
  from fl have "planning_data p' = planning_data p5"
    by (simp add: flags_only_def)
  with saveNBVData_margin [OF sv]
  have m: "last (planning_data p') ! 8 = highest_return ?st - second_highest ?st"
    by (simp add: make_return_info_def)
  have hi: "highest_return ?st = view_returns ! nbv" "second_highest ?st < highest_return ?st"
    using inv nbv by (auto simp: nbv_scan_inv_def)
  from m hi nbv_scan_second_highest [OF nbv]
  have "last (planning_data p') ! 8 =
       view_returns ! nbv - Max (insert 0 {view_returns ! j | j. j < nbv \<and> costs ! j \<noteq> -1})"
    "0 < last (planning_data p') ! 8"
    by simp_all
  with ev nbv show ?thesis by blast
qed

lemma best_first_round_evaluate:
  "round_evaluate (example_planner, best_first_env) =
     Inr ([0, 1], [2, 1], [[10, 0, 0, 0, 0, 0, 0, 0, 0], [5, 0, 0, 0, 0, 0, 0, 0, 0]], [18, 9],
          example_planner,
          best_first_env\<lparr>movement_cost_srv := [], information_srv := [],
            movement_cost_requests := [(view_at 0 0, view_at 1 1), (view_at 0 0, view_at 2 2)],
            ros_log := [(INFO, msg_retrieve_costs), (INFO, msg_retrieve_information),
                        (INFO, msg_calculating)]\<rparr>)"
  by (simp add: eval_defs eval_loops example_planner_fields best_first_env_def quiet_env_def)

lemmas eval_round_end =
  make_return_info_def saveNBVData_def getView_def view_at_def
  terminationCriteriaFulfilled_def moveToAndWait_def moveToAndWait_loop.simps moveTo_def
  retrieveDataAndWait_def retrieveDataAndWait_loop.simps retrieveData_def spinOnce_def
  ros_log_append_def quiet_env_def

text \<open>
  Claim C2 says that the recorded winning margin is the highest return minus the
  second-highest return, is never negative, and is 0 whenever fewer than two
  candidates of the round are cost-viable. The scan keeps in \<^verbatim>\<open>second_highest\<close> only
  the value that \<^verbatim>\<open>highest_return\<close> had before the winner was met, and both start at
  0. A round over a single good view, of cost 1 and return \<open>-1 + 2 * 5 = 9\<close>, records
  the margin \<open>9 - 0 = 9\<close>, not 0. A round over two good views with the returns
  \<open>-2 + 2 * 10 = 18\<close> and \<open>-1 + 2 * 5 = 9\<close>, in this order, records the margin
  \<open>18 - 0 = 18\<close>, not \<open>18 - 9 = 9\<close>: the second candidate is never compared with
  \<^verbatim>\<open>second_highest\<close>. With the same two returns in the other order the margin
  recorded is \<open>18 - 9 = 9\<close>. The margin is the ninth value of the recorded row, after
  the seven values of the pose and the return.
\<close>

theorem winning_margin_ignores_later_candidates:
  "determineAvailableViewSpace one_view_planner = [0] \<and>
   loop_body std_error (one_view_planner, one_candidate_env) =
     Inr (False,
          one_view_planner\<lparr>planning_data :=
            [[1, 0, 0, 0, 0, 0, 1, 9, 9, fst (std_error [9]), sqrt (snd (std_error [9])),
              1, 5, 0, 0, 0, 0, 0, 0, 0, 0]]\<rparr>,
          one_candidate_env\<lparr>command_queue := [], movement_cost_srv := [], information_srv := [],
            retrieve_data_srv := [], move_to_srv := [],
            movement_cost_requests := [(view_at 0 0, view_at 1 1)],
            ros_log := [(INFO, msg_retrieve_costs), (INFO, msg_retrieve_information),
                        (INFO, msg_calculating), (INFO, msg_move_success),
                        (INFO, msg_retrieve_success)]\<rparr>) \<and>
   round_evaluate (example_planner, best_first_env) =
     Inr ([0, 1], [2, 1], [[10, 0, 0, 0, 0, 0, 0, 0, 0], [5, 0, 0, 0, 0, 0, 0, 0, 0]], [18, 9],
          example_planner,
          best_first_env\<lparr>movement_cost_srv := [], information_srv := [],
            movement_cost_requests := [(view_at 0 0, view_at 1 1), (view_at 0 0, view_at 2 2)],
            ros_log := [(INFO, msg_retrieve_costs), (INFO, msg_retrieve_information),
                        (INFO, msg_calculating)]\<rparr>) \<and>
   loop_body std_error (example_planner, best_first_env) =
     Inr (False,
          example_planner\<lparr>planning_data :=
            [[1, 0, 0, 0, 0, 0, 1, 18, 18, fst (std_error [18, 9]), sqrt (snd (std_error [18, 9])),
              2, 10, 0, 0, 0, 0, 0, 0, 0, 0]]\<rparr>,
          best_first_env\<lparr>command_queue := [], movement_cost_srv := [], information_srv := [],
            retrieve_data_srv := [], move_to_srv := [],
            movement_cost_requests := [(view_at 0 0, view_at 1 1), (view_at 0 0, view_at 2 2)],
            ros_log := [(INFO, msg_retrieve_costs), (INFO, msg_retrieve_information),
                        (INFO, msg_calculating), (INFO, msg_move_success),
                        (INFO, msg_retrieve_success)]\<rparr>) \<and>
   loop_body std_error (example_planner, two_candidates_env) =
     Inr (False,
          example_planner\<lparr>planning_data :=
            [[2, 0, 0, 0, 0, 0, 1, 18, 9, fst (std_error [9, 18]), sqrt (snd (std_error [9, 18])),
              2, 10, 0, 0, 0, 0, 0, 0, 0, 0]]\<rparr>,
          two_candidates_env\<lparr>command_queue := [], movement_cost_srv := [], information_srv := [],
            retrieve_data_srv := [], move_to_srv := [],
            movement_cost_requests := [(view_at 0 0, view_at 1 1), (view_at 0 0, view_at 2 2)],
            ros_log := [(INFO, msg_retrieve_costs), (INFO, msg_retrieve_information),
                        (INFO, msg_calculating), (INFO, msg_move_success),
                        (INFO, msg_retrieve_success)]\<rparr>)"
proof -
  have one: "loop_body std_error (one_view_planner, one_candidate_env) =
     Inr (False,
          one_view_planner\<lparr>planning_data :=
            [[1, 0, 0, 0, 0, 0, 1, 9, 9, fst (std_error [9]), sqrt (snd (std_error [9])),
              1, 5, 0, 0, 0, 0, 0, 0, 0, 0]]\<rparr>,
          one_candidate_env\<lparr>command_queue := [], movement_cost_srv := [], information_srv := [],
            retrieve_data_srv := [], move_to_srv := [],
            movement_cost_requests := [(view_at 0 0, view_at 1 1)],
            ros_log := [(INFO, msg_retrieve_costs), (INFO, msg_retrieve_information),
                        (INFO, msg_calculating), (INFO, msg_move_success),
                        (INFO, msg_retrieve_success)]\<rparr>)"
    unfolding loop_body_def one_view_round_evaluate
    by (simp add: Let_def eval_scan eval_round_end one_view_planner_fields one_candidate_env_def)
  have first: "loop_body std_error (example_planner, best_first_env) =
     Inr (False,
          example_planner\<lparr>planning_data :=
            [[1, 0, 0, 0, 0, 0, 1, 18, 18, fst (std_error [18, 9]), sqrt (snd (std_error [18, 9])),
              2, 10, 0, 0, 0, 0, 0, 0, 0, 0]]\<rparr>,
          best_first_env\<lparr>command_queue := [], movement_cost_srv := [], information_srv := [],
            retrieve_data_srv := [], move_to_srv := [],
            movement_cost_requests := [(view_at 0 0, view_at 1 1), (view_at 0 0, view_at 2 2)],
            ros_log := [(INFO, msg_retrieve_costs), (INFO, msg_retrieve_information),
                        (INFO, msg_calculating), (INFO, msg_move_success),
                        (INFO, msg_retrieve_success)]\<rparr>)"
    unfolding loop_body_def best_first_round_evaluate
    by (simp add: Let_def eval_scan eval_round_end example_planner_fields best_first_env_def)
  have last: "loop_body std_error (example_planner, two_candidates_env) =
     Inr (False,
          example_planner\<lparr>planning_data :=
            [[2, 0, 0, 0, 0, 0, 1, 18, 9, fst (std_error [9, 18]), sqrt (snd (std_error [9, 18])),
              2, 10, 0, 0, 0, 0, 0, 0, 0, 0]]\<rparr>,
          two_candidates_env\<lparr>command_queue := [], movement_cost_srv := [], information_srv := [],
            retrieve_data_srv := [], move_to_srv := [],
            movement_cost_requests := [(view_at 0 0, view_at 1 1), (view_at 0 0, view_at 2 2)],
            ros_log := [(INFO, msg_retrieve_costs), (INFO, msg_retrieve_information),
                        (INFO, msg_calculating), (INFO, msg_move_success),
                        (INFO, msg_retrieve_success)]\<rparr>)"
    unfolding loop_body_def example_round_evaluate
    by (simp add: Let_def eval_scan eval_round_end example_planner_fields two_candidates_env_def)
  have cand: "determineAvailableViewSpace one_view_planner = [0]"
    by (simp add: determineAvailableViewSpace_def getGoodViewSpace_def one_view_planner_fields)
  from cand one best_first_round_evaluate first last show ?thesis
    by (simp only: simp_thms)
qed

end
